theory Spec2Isabelle
  imports Main "HOL-Library.AList"
begin

section \<open>UFW Manager: rules, annotation stores and the rule form\<close>

text \<open>
  A shallow embedding of \<^verbatim>\<open>src/ufwmanager.py\<close> (class \<^verbatim>\<open>UFWManager\<close>). Python strings
  are modelled as \<^typ>\<open>string\<close>: a \<^typ>\<open>char\<close> is a code point below 256, and the string
  operations are Python's on these code points (the form itself only accepts the key
  codes 32..126). The annotation files and the tool's output are held as the text their
  bytes decode to. The terminal drawing calls (\<^verbatim>\<open>addstr\<close>, \<^verbatim>\<open>hline\<close>, \<^verbatim>\<open>refresh\<close>,
  colours) are not modelled.
\<close>

subsection \<open>Python's string operations\<close>

definition code :: "char \<Rightarrow> nat" where
  "code c = of_char c"

text \<open>\<^verbatim>\<open>str.isspace\<close>, also the class \<^verbatim>\<open>\s\<close> and what \<^verbatim>\<open>strip()\<close> and \<^verbatim>\<open>split()\<close> take for
  blanks: the code points 9..13, 28..32, 133 (next line) and 160 (no-break space).\<close>

definition py_isspace :: "char \<Rightarrow> bool" where
  "py_isspace c = ((9 \<le> code c \<and> code c \<le> 13) \<or> (28 \<le> code c \<and> code c \<le> 32)
     \<or> code c = 133 \<or> code c = 160)"

text \<open>A decimal digit, the class \<^verbatim>\<open>\d\<close>: only 0..9 below code point 256.\<close>

definition is_digit :: "char \<Rightarrow> bool" where
  "is_digit c = (48 \<le> code c \<and> code c \<le> 57)"

text \<open>The characters \<^verbatim>\<open>str.isdigit\<close> accepts: the decimal digits and the superscripts
  two, three and one (178, 179, 185), which are digits but not decimal.\<close>

definition is_superscript :: "char \<Rightarrow> bool" where
  "is_superscript c = (code c = 178 \<or> code c = 179 \<or> code c = 185)"

definition isdigit_char :: "char \<Rightarrow> bool" where
  "isdigit_char c = (is_digit c \<or> is_superscript c)"

text \<open>A word character, the class \<^verbatim>\<open>\w\<close>: the underscore and what \<^verbatim>\<open>str.isalnum\<close>
  accepts, which from 128 on is 170, 178, 179, 181, 185, 186, 188..190, 192..214,
  216..246 and 248..255.\<close>

definition is_word :: "char \<Rightarrow> bool" where
  "is_word c = (is_digit c \<or> (65 \<le> code c \<and> code c \<le> 90) \<or> code c = 95
     \<or> (97 \<le> code c \<and> code c \<le> 122)
     \<or> code c = 170 \<or> is_superscript c \<or> code c = 181 \<or> code c = 186
     \<or> (188 \<le> code c \<and> code c \<le> 190) \<or> (192 \<le> code c \<and> code c \<le> 214)
     \<or> (216 \<le> code c \<and> code c \<le> 246) \<or> 248 \<le> code c)"

text \<open>\<^verbatim>\<open>s.isdigit()\<close>: not empty, and every character a digit.\<close>

definition py_isdigit :: "string \<Rightarrow> bool" where
  "py_isdigit s = (s \<noteq> [] \<and> list_all isdigit_char s)"

text \<open>A decimal numeral, which \<^verbatim>\<open>int\<close> reads: not empty, and every character a decimal
  digit.\<close>

definition is_decimal :: "string \<Rightarrow> bool" where
  "is_decimal s = (s \<noteq> [] \<and> list_all is_digit s)"

text \<open>\<^verbatim>\<open>s.strip(chars)\<close> for a predicate on characters, and \<^verbatim>\<open>s.strip()\<close>.\<close>

definition strip_where :: "(char \<Rightarrow> bool) \<Rightarrow> string \<Rightarrow> string" where
  "strip_where p s = rev (dropWhile p (rev (dropWhile p s)))"

definition py_strip :: "string \<Rightarrow> string" where
  "py_strip s = strip_where py_isspace s"

text \<open>\<^verbatim>\<open>s.strip('[] ')\<close>.\<close>

definition strip_brackets :: "string \<Rightarrow> string" where
  "strip_brackets s = strip_where (\<lambda>c. c \<in> set ''[] '') s"

text \<open>\<^verbatim>\<open>s.lower()\<close>: the capital letters are 65..90 and 192..222 without 215, each 32
  before its small letter.\<close>

definition lower_char :: "char \<Rightarrow> char" where
  "lower_char c =
     (if (65 \<le> code c \<and> code c \<le> 90) \<or> (192 \<le> code c \<and> code c \<le> 222 \<and> code c \<noteq> 215)
      then char_of (code c + 32) else c)"

definition py_lower :: "string \<Rightarrow> string" where
  "py_lower s = map lower_char s"

text \<open>\<^verbatim>\<open>s.startswith(p)\<close> and \<^verbatim>\<open>sub in s\<close>.\<close>

fun startswith :: "string \<Rightarrow> string \<Rightarrow> bool" where
  "startswith s [] = True"
| "startswith [] (p # ps) = False"
| "startswith (c # cs) (p # ps) = (c = p \<and> startswith cs ps)"

fun contains :: "string \<Rightarrow> string \<Rightarrow> bool" where
  "contains sub [] = (sub = [])"
| "contains sub (c # cs) = (startswith (c # cs) sub \<or> contains sub cs)"

text \<open>
  \<^verbatim>\<open>s.split(sep, 1)\<close> for a separator that is not empty: \<open>None\<close> when \<open>sep\<close> does not
  occur (Python returns the one-element list), else the text before the first
  occurrence and the text after it.
\<close>

fun split_first :: "string \<Rightarrow> string \<Rightarrow> (string \<times> string) option" where
  "split_first sep [] = None"
| "split_first sep (c # cs) =
     (if startswith (c # cs) sep then Some ([], drop (length sep) (c # cs))
      else map_option (\<lambda>(a, b). (c # a, b)) (split_first sep cs))"

text \<open>\<^verbatim>\<open>s.split(c)\<close> for a one-character separator: always at least one piece.\<close>

fun split_on :: "char \<Rightarrow> string \<Rightarrow> string list" where
  "split_on sep [] = [[]]"
| "split_on sep (c # cs) =
     (if c = sep then [] # split_on sep cs
      else (case split_on sep cs of [] \<Rightarrow> [[c]] | p # ps \<Rightarrow> (c # p) # ps))"

text \<open>\<^verbatim>\<open>s.split()\<close>: the maximal runs of characters that are not whitespace. The first
  argument is the run being read, reversed.\<close>

fun split_words :: "string \<Rightarrow> string \<Rightarrow> string list" where
  "split_words w [] = (if w = [] then [] else [rev w])"
| "split_words w (c # cs) =
     (if py_isspace c then (if w = [] then split_words [] cs else rev w # split_words [] cs)
      else split_words (c # w) cs)"

definition py_split :: "string \<Rightarrow> string list" where
  "py_split s = split_words [] s"

subsection \<open>Python's \<^verbatim>\<open>int\<close> and \<^verbatim>\<open>str\<close> on integers\<close>

text \<open>The exceptions that leave a method uncaught. \<^verbatim>\<open>UnicodeDecodeError\<close> is a
  \<^verbatim>\<open>ValueError\<close> in Python; it is kept apart here.\<close>

datatype error = ValueError | IndexError | UnicodeDecodeError

definition digit_val :: "char \<Rightarrow> nat" where
  "digit_val c = code c - 48"

definition dec_value :: "string \<Rightarrow> nat" where
  "dec_value s = foldl (\<lambda>a c. 10 * a + digit_val c) 0 s"

text \<open>The digits of a literal that \<^verbatim>\<open>int\<close> accepts, single underscores between digits
  removed; \<open>None\<close> when the text is not of that form.\<close>

fun int_digits :: "string \<Rightarrow> string option" where
  "int_digits [] = None"
| "int_digits [c] = (if is_digit c then Some [c] else None)"
| "int_digits (c # d # s) =
     (if \<not> is_digit c then None
      else if d = CHR ''_'' then map_option (Cons c) (int_digits s)
      else map_option (Cons c) (int_digits (d # s)))"

text \<open>The blanks \<^verbatim>\<open>int\<close> skips around a literal: 9..13, 32, 133 and 160 (not 28..31).\<close>

definition c_isspace :: "char \<Rightarrow> bool" where
  "c_isspace c = ((9 \<le> code c \<and> code c \<le> 13) \<or> code c = 32 \<or> code c = 133 \<or> code c = 160)"

text \<open>
  The interpreter's limit on conversions between \<^verbatim>\<open>int\<close> and \<^verbatim>\<open>str\<close>
  (\<^verbatim>\<open>sys.get_int_max_str_digits()\<close>, 4300 unless configured, 0 where there is none): a
  conversion of \<open>n\<close> digits is refused with a \<^verbatim>\<open>ValueError\<close> when the limit is set and \<open>n\<close>
  exceeds it and 640. Signs, blanks and underscores do not count.
\<close>

definition too_long :: "nat \<Rightarrow> nat \<Rightarrow> bool" where
  "too_long max_digits n = (max_digits > 0 \<and> n > max max_digits 640)"

definition int_literal :: "nat \<Rightarrow> string \<Rightarrow> nat option" where
  "int_literal max_digits r =
     (case int_digits r of
        None \<Rightarrow> None
      | Some d \<Rightarrow> if too_long max_digits (length d) then None else Some (dec_value d))"

text \<open>\<^verbatim>\<open>int(s)\<close> under the limit \<open>max_digits\<close>; \<open>None\<close> is the \<^verbatim>\<open>ValueError\<close>. Every character
  that is not a blank, a sign, a decimal digit or an underscore in its place makes the
  text invalid, the superscript digits too.\<close>

definition py_int :: "nat \<Rightarrow> string \<Rightarrow> int option" where
  "py_int max_digits s =
     (case strip_where c_isspace s of
        [] \<Rightarrow> None
      | c # r \<Rightarrow>
          if c = CHR ''-'' then map_option (\<lambda>n. - int n) (int_literal max_digits r)
          else if c = CHR ''+'' then map_option int (int_literal max_digits r)
          else map_option int (int_literal max_digits (c # r)))"

definition digit_char :: "nat \<Rightarrow> char" where
  "digit_char d = char_of (48 + d)"

fun nat_digits :: "nat \<Rightarrow> string" where
  "nat_digits n = (if n < 10 then [digit_char n] else nat_digits (n div 10) @ [digit_char (n mod 10)])"

declare nat_digits.simps [simp del]

text \<open>The decimal numeral of an integer, and \<^verbatim>\<open>str(i)\<close> under the limit \<open>max_digits\<close>;
  \<open>None\<close> is the \<^verbatim>\<open>ValueError\<close>.\<close>

definition int_text :: "int \<Rightarrow> string" where
  "int_text i = (if i < 0 then CHR ''-'' # nat_digits (nat (- i)) else nat_digits (nat i))"

definition py_str :: "nat \<Rightarrow> int \<Rightarrow> string option" where
  "py_str max_digits i =
     (if too_long max_digits (length (nat_digits (nat \<bar>i\<bar>))) then None else Some (int_text i))"

subsection \<open>Dictionaries\<close>

text \<open>
  A \<^verbatim>\<open>dict[str, str]\<close> is an association list in insertion order with distinct keys:
  \<^verbatim>\<open>d[k] = v\<close> replaces the value in place or appends the new key, as
  \<^const>\<open>AList.update\<close> does.
\<close>

type_synonym dict = "(string \<times> string) list"

definition setitem :: "dict \<Rightarrow> string \<Rightarrow> string \<Rightarrow> dict" where
  "setitem d k v = AList.update k v d"

definition delitem :: "dict \<Rightarrow> string \<Rightarrow> dict" where
  "delitem d k = AList.delete k d"

definition dict_get :: "dict \<Rightarrow> string \<Rightarrow> string \<Rightarrow> string" where
  "dict_get d k dflt = (case map_of d k of None \<Rightarrow> dflt | Some v \<Rightarrow> v)"

text \<open>\<^verbatim>\<open>d1 == d2\<close>: the same keys with the same values, in any order.\<close>

definition dict_eq :: "dict \<Rightarrow> dict \<Rightarrow> bool" where
  "dict_eq d1 d2 = (set d1 = set d2)"

text \<open>A dictionary value: no key twice.\<close>

definition is_dict :: "dict \<Rightarrow> bool" where
  "is_dict d = distinct (map fst d)"

subsection \<open>The manager's state and its environment\<close>

text \<open>
  The environment is what the program cannot decide: what the shell answers to a command
  line (\<open>Inl\<close> the standard error of a run with non-zero exit status, which
  \<^verbatim>\<open>subprocess.run(..., check=True)\<close> raises as \<^verbatim>\<open>CalledProcessError\<close>; \<open>Inr\<close> the
  standard output), which directory and file operations fail with an \<^verbatim>\<open>OSError\<close> (and its
  text), which element \<^verbatim>\<open>set.pop\<close> returns, and the interpreter's limit on the digits of
  an integer conversion. A file operation fails when the file is opened or not at all; a
  file that was opened is read or written whole.
\<close>

datatype io_op = MakeDirs string | OpenAppend string | OpenRead string | OpenWrite string

record 'u host =
  shell :: "string \<Rightarrow> 'u \<Rightarrow> (string + string) \<times> 'u"
  io_error :: "io_op \<Rightarrow> string option"
  pop_choice :: nat
  int_max_str_digits :: nat

text \<open>
  The fields of \<^verbatim>\<open>self\<close>, and the world the program acts on: the regular files by path,
  the state of the external tool, and the command lines run so far.
\<close>

record 'u manager =
  selected_index :: nat
  scroll_pos :: nat
  status_message :: string
  rules :: "(string \<times> string) list"
  ufw_status :: string
  notes_dir :: string
  "notes" :: dict
  services :: dict
  files :: "string \<rightharpoonup> string"
  tool :: 'u
  issued :: "string list"

text \<open>
  What a method call comes to: it returns, an exception leaves it uncaught, or it waits
  in \<^verbatim>\<open>getch\<close> for a key that never comes. An exception carries what the call has done
  to the world by then: the files as they are left and the command lines run.
\<close>

record aftermath =
  files_left :: "string \<rightharpoonup> string"
  commands_run :: "string list"

datatype 'a result = Returns 'a | Raises error aftermath | Blocks

definition left_by :: "'u manager \<Rightarrow> aftermath" where
  "left_by s = \<lparr>files_left = files s, commands_run = issued s\<rparr>"

definition notes_file :: "'u manager \<Rightarrow> string" where
  "notes_file s = notes_dir s @ ''/notes.txt''"

definition services_file :: "'u manager \<Rightarrow> string" where
  "services_file s = notes_dir s @ ''/services.txt''"

definition run_command ::
  "'u host \<Rightarrow> string \<Rightarrow> string option \<Rightarrow> 'u manager \<Rightarrow> (string + string) \<times> 'u manager" where
  "run_command h command needs_input s =
     (let line = (case needs_input of
                    None \<Rightarrow> command
                  | Some i \<Rightarrow> if i = [] then command
                      else ''echo '' @ [CHR 0x27] @ i @ [CHR 0x27] @ '' | '' @ command);
          (r, t) = shell h line (tool s)
      in (r, s\<lparr>tool := t, issued := issued s @ [line]\<rparr>))"

subsection \<open>Loading and saving the annotation files\<close>

text \<open>Reading a text file: every line ending becomes a line feed, and the lines keep it.\<close>

fun universal_newlines :: "string \<Rightarrow> string" where
  "universal_newlines [] = []"
| "universal_newlines [c] = (if c = CHR 0x0D then [CHR 0x0A] else [c])"
| "universal_newlines (c # d # s) =
     (if c = CHR 0x0D \<and> d = CHR 0x0A then CHR 0x0A # universal_newlines s
      else if c = CHR 0x0D then CHR 0x0A # universal_newlines (d # s)
      else c # universal_newlines (d # s))"

fun readlines :: "string \<Rightarrow> string list" where
  "readlines [] = []"
| "readlines (c # cs) =
     (if c = CHR 0x0A then [c] # readlines cs
      else (case readlines cs of [] \<Rightarrow> [[c]] | l # ls \<Rightarrow> (c # l) # ls))"

text \<open>One line of the loop of \<^verbatim>\<open>_setup_and_load_files\<close>; \<open>split_first\<close> is \<open>None\<close> exactly
  when the line has no colon.\<close>

definition parse_line :: "dict \<Rightarrow> string \<Rightarrow> dict" where
  "parse_line d line =
     (case split_first '':'' line of
        None \<Rightarrow> d
      | Some (num, text) \<Rightarrow>
          if py_isdigit (py_strip num) then setitem d (py_strip num) (py_strip text) else d)"

definition load_dict :: "string \<Rightarrow> dict" where
  "load_dict content = foldl parse_line [] (readlines (universal_newlines content))"

text \<open>\<^verbatim>\<open>if not os.path.isfile(file_path): open(file_path, 'a').close()\<close>, when the
  opening succeeds.\<close>

definition ensure_file :: "string \<Rightarrow> 'u manager \<Rightarrow> 'u manager" where
  "ensure_file p s = (if files s p = None then s\<lparr>files := (files s)(p \<mapsto> [])\<rparr> else s)"

text \<open>
  One round of the loop over the two files: create the file when it is missing, clear
  the dictionary, read the file into it. The result carries the text of the
  \<^verbatim>\<open>OSError\<close> that ended the round, if any, and the state reached.
\<close>

definition load_file ::
  "'u host \<Rightarrow> string \<Rightarrow> (dict \<Rightarrow> 'u manager \<Rightarrow> 'u manager) \<Rightarrow> 'u manager
     \<Rightarrow> string option \<times> 'u manager" where
  "load_file h file_path store s =
     (if files s file_path = None \<and> io_error h (OpenAppend file_path) \<noteq> None
      then (io_error h (OpenAppend file_path), s)
      else
        let s1 = ensure_file file_path s;
            s2 = store [] s1
        in case io_error h (OpenRead file_path) of
             Some e \<Rightarrow> (Some e, s2)
           | None \<Rightarrow>
               (None, store (load_dict (case files s1 file_path of None \<Rightarrow> [] | Some c \<Rightarrow> c)) s2))"

definition set_notes :: "dict \<Rightarrow> 'u manager \<Rightarrow> 'u manager" where
  "set_notes d s = s\<lparr>notes := d\<rparr>"

definition set_services :: "dict \<Rightarrow> 'u manager \<Rightarrow> 'u manager" where
  "set_services d s = s\<lparr>services := d\<rparr>"

definition setup_and_load_files :: "'u host \<Rightarrow> 'u manager \<Rightarrow> 'u manager" where
  "setup_and_load_files h s =
     (case io_error h (MakeDirs (notes_dir s)) of
        Some e \<Rightarrow> s\<lparr>status_message := ''Error with config files: '' @ e\<rparr>
      | None \<Rightarrow>
          (case load_file h (notes_file s) set_notes s of
             (Some e, s1) \<Rightarrow> s1\<lparr>status_message := ''Error with config files: '' @ e\<rparr>
           | (None, s1) \<Rightarrow>
               (case load_file h (services_file s1) set_services s1 of
                  (Some e, s2) \<Rightarrow> s2\<lparr>status_message := ''Error with config files: '' @ e\<rparr>
                | (None, s2) \<Rightarrow> s2)))"

text \<open>\<^verbatim>\<open>__init__\<close>, given the expansion of \<^verbatim>\<open>~/.config/ufwnotes\<close>: the fields before
  the files are loaded, and the constructor.\<close>

definition fresh :: "string \<Rightarrow> (string \<rightharpoonup> string) \<Rightarrow> 'u \<Rightarrow> 'u manager" where
  "fresh dir fs t =
     \<lparr>selected_index = 0, scroll_pos = 0,
      status_message = ''Welcome to UFW Manager! Press 'R' to load/reload rules.'',
      rules = [], ufw_status = ''inactive'', notes_dir = dir, notes = [], services = [],
      files = fs, tool = t, issued = []\<rparr>"

definition init :: "'u host \<Rightarrow> string \<Rightarrow> (string \<rightharpoonup> string) \<Rightarrow> 'u \<Rightarrow> 'u manager" where
  "init h dir fs t = setup_and_load_files h (fresh dir fs t)"

text \<open>
  \<^verbatim>\<open>_save_notes_or_services\<close>. \<^verbatim>\<open>sorted\<close> first takes the key \<^verbatim>\<open>int(item[0])\<close> of
  every item that passed \<^verbatim>\<open>isdigit\<close>, in their order, and the first key \<^verbatim>\<open>int\<close> refuses
  raises a \<^verbatim>\<open>ValueError\<close>, which the method does not catch: the file, opened for writing,
  is left empty. Then it sorts by these keys; the sort is stable. The texts written are
  taken to be encodable in the file's encoding.
\<close>

definition valid_items :: "dict \<Rightarrow> dict" where
  "valid_items data_dict = filter (\<lambda>item. py_isdigit (fst item)) data_dict"

definition store_line :: "string \<times> string \<Rightarrow> string" where
  "store_line item = fst item @ '':'' @ snd item @ [CHR 0x0A]"

fun keyed :: "nat \<Rightarrow> dict \<Rightarrow> (int \<times> string \<times> string) list option" where
  "keyed max_digits [] = Some []"
| "keyed max_digits (item # items) =
     (case py_int max_digits (fst item) of
        None \<Rightarrow> None
      | Some k \<Rightarrow> map_option (Cons (k, item)) (keyed max_digits items))"

definition store_text :: "nat \<Rightarrow> dict \<Rightarrow> string option" where
  "store_text max_digits data_dict =
     map_option (\<lambda>ks. concat (map (\<lambda>ki. store_line (snd ki)) (sort_key fst ks)))
       (keyed max_digits (valid_items data_dict))"

definition basename :: "string \<Rightarrow> string" where
  "basename p = rev (takeWhile (\<lambda>c. c \<noteq> CHR ''/'') (rev p))"

definition save_notes_or_services ::
  "'u host \<Rightarrow> string \<Rightarrow> dict \<Rightarrow> 'u manager \<Rightarrow> 'u manager result" where
  "save_notes_or_services h file_path data_dict s =
     (case io_error h (OpenWrite file_path) of
        Some e \<Rightarrow>
          Returns (s\<lparr>status_message := ''Error saving to '' @ basename file_path @ '': '' @ e\<rparr>)
      | None \<Rightarrow>
          (case store_text (int_max_str_digits h) data_dict of
             None \<Rightarrow> Raises ValueError (left_by (s\<lparr>files := (files s)(file_path \<mapsto> [])\<rparr>))
           | Some body \<Rightarrow> Returns (s\<lparr>files := (files s)(file_path \<mapsto> body)\<rparr>)))"

text \<open>The keys \<^verbatim>\<open>int\<close> accepts among those that pass \<^verbatim>\<open>isdigit\<close>: with them a save
  raises nothing.\<close>

definition sortable :: "nat \<Rightarrow> dict \<Rightarrow> bool" where
  "sortable max_digits d =
     list_all (\<lambda>item. py_isdigit (fst item) \<longrightarrow> py_int max_digits (fst item) \<noteq> None) d"

text \<open>The text of a file, empty for a file that does not exist (loading creates it
  empty); the file operations of a load all succeed; a text without a line break.\<close>

definition file_text :: "'u manager \<Rightarrow> string \<Rightarrow> string" where
  "file_text s p = (case files s p of None \<Rightarrow> [] | Some c \<Rightarrow> c)"

definition loads_ok :: "'u host \<Rightarrow> 'u manager \<Rightarrow> bool" where
  "loads_ok h s =
     (io_error h (MakeDirs (notes_dir s)) = None
      \<and> io_error h (OpenAppend (notes_file s)) = None
      \<and> io_error h (OpenRead (notes_file s)) = None
      \<and> io_error h (OpenAppend (services_file s)) = None
      \<and> io_error h (OpenRead (services_file s)) = None)"

definition single_line :: "string \<Rightarrow> bool" where
  "single_line v = (CHR 0x0A \<notin> set v \<and> CHR 0x0D \<notin> set v)"

subsection \<open>Fetching the rules\<close>

text \<open>\<^verbatim>\<open>re.match(r'(\[\s*\d+\])\s+(.*)', line)\<close>: the two groups.\<close>

definition rule_match :: "string \<Rightarrow> (string \<times> string) option" where
  "rule_match line =
     (case line of
        [] \<Rightarrow> None
      | c # r \<Rightarrow>
          if c \<noteq> CHR ''['' then None
          else
            let blanks = takeWhile py_isspace r;
                r1 = dropWhile py_isspace r;
                digits = takeWhile is_digit r1;
                r2 = dropWhile is_digit r1
            in if digits = [] then None
               else (case r2 of
                       [] \<Rightarrow> None
                     | b # r3 \<Rightarrow>
                         if b \<noteq> CHR '']'' \<or> takeWhile py_isspace r3 = [] then None
                         else Some (CHR ''['' # blanks @ digits @ '']'', dropWhile py_isspace r3)))"

definition parse_rules :: "string list \<Rightarrow> (string \<times> string) list" where
  "parse_rules lines = List.map_filter (\<lambda>line. rule_match (py_strip line)) lines"

text \<open>\<^verbatim>\<open>status_line.split(':')[1].strip()\<close> of the first line that contains
  \<^verbatim>\<open>Status:\<close>, or of the default line.\<close>

definition status_field :: "string list \<Rightarrow> error + string" where
  "status_field lines =
     (let status_line = (case filter (contains ''Status:'') lines of
                           [] \<Rightarrow> ''Status: inactive''
                         | l # _ \<Rightarrow> l)
      in case split_on CHR '':'' status_line of
           a # b # _ \<Rightarrow> Inr (py_strip b)
         | _ \<Rightarrow> Inl IndexError)"

definition get_firewall_rules :: "'u host \<Rightarrow> 'u manager \<Rightarrow> 'u manager result" where
  "get_firewall_rules h s =
     (case run_command h ''sudo ufw status numbered'' None s of
        (Inl err, s1) \<Rightarrow>
          Returns (s1\<lparr>ufw_status := ''error'', rules := [],
            status_message := ''Error fetching UFW status. Is it installed and enabled?''\<rparr>)
      | (Inr out, s1) \<Rightarrow>
          let lines = split_on (CHR 0x0A) (py_strip out) in
          (case status_field lines of
             Inl e \<Rightarrow> Raises e (left_by s1)
           | Inr st \<Rightarrow>
               let s2 = s1\<lparr>ufw_status := st, rules := parse_rules lines\<rparr>
               in Returns (if rules s2 = []
                    then s2\<lparr>status_message := ''UFW is active, but no rules are configured.''\<rparr>
                    else s2)))"

definition and_then :: "'a result \<Rightarrow> ('a \<Rightarrow> 'b result) \<Rightarrow> 'b result" where
  "and_then r f = (case r of Returns x \<Rightarrow> f x | Raises e w \<Rightarrow> Raises e w | Blocks \<Rightarrow> Blocks)"

subsection \<open>Deleting a rule\<close>

text \<open>
  What \<^verbatim>\<open>win.getstr(2, 24, 3).decode('utf-8')\<close> comes to: the text the bytes read decode
  to, a \<^verbatim>\<open>curses.error\<close> of \<^verbatim>\<open>getstr\<close>, or bytes that are not UTF-8, for which
  \<^verbatim>\<open>decode\<close> raises a \<^verbatim>\<open>UnicodeDecodeError\<close> that \<^verbatim>\<open>_confirm_action\<close> does not catch.
\<close>

datatype reading = Typed string | Curses_error | Undecodable

text \<open>\<^verbatim>\<open>_confirm_action\<close>, given the reading.\<close>

definition confirm_action :: "reading \<Rightarrow> error + bool" where
  "confirm_action typed =
     (case (case typed of
              Typed t \<Rightarrow> Inr (py_lower (py_strip t))
            | Curses_error \<Rightarrow> Inr []
            | Undecodable \<Rightarrow> Inl UnicodeDecodeError) of
        Inl e \<Rightarrow> Inl e
      | Inr user_input \<Rightarrow> Inr (user_input = ''y''))"

text \<open>The inner loop of \<^verbatim>\<open>_delete_firewall_rule\<close> over \<^verbatim>\<open>data_dict.items()\<close>, filling
  \<^verbatim>\<open>new_data\<close>.\<close>

fun reindex_items :: "nat \<Rightarrow> int \<Rightarrow> dict \<Rightarrow> dict \<Rightarrow> error + dict" where
  "reindex_items max_digits deleted_num new_data [] = Inr new_data"
| "reindex_items max_digits deleted_num new_data ((num_str, text) # items) =
     (case py_int max_digits num_str of
        None \<Rightarrow> Inl ValueError
      | Some num \<Rightarrow>
          if num = deleted_num then reindex_items max_digits deleted_num new_data items
          else if num > deleted_num
            then (case py_str max_digits (num - 1) of
                    None \<Rightarrow> Inl ValueError
                  | Some k \<Rightarrow> reindex_items max_digits deleted_num (setitem new_data k text) items)
          else reindex_items max_digits deleted_num (setitem new_data num_str text) items)"

text \<open>
  What renumbering is to achieve, in the words of the specification: the entry at the
  deleted index is dropped, an entry at a greater index moves to the index before it with
  its text, an entry at a smaller index stays. \<open>canonical\<close> keys are the decimal numerals
  without leading zeros, the way the tool's rule numbers reach the stores.
\<close>

definition canonical :: "string \<Rightarrow> bool" where
  "canonical k = (py_isdigit k \<and> int_text (int (dec_value k)) = k)"

definition shift_key :: "int \<Rightarrow> string \<Rightarrow> string" where
  "shift_key deleted_num k =
     (if int (dec_value k) > deleted_num then int_text (int (dec_value k) - 1) else k)"

definition renumbered :: "int \<Rightarrow> dict \<Rightarrow> dict" where
  "renumbered deleted_num d =
     map (\<lambda>item. (shift_key deleted_num (fst item), snd item))
       (filter (\<lambda>item. int (dec_value (fst item)) \<noteq> deleted_num) d)"

text \<open>One round of the outer loop, for the dictionary \<^verbatim>\<open>data_dict\<close> and its file. The
  test \<^verbatim>\<open>data_dict == self.notes\<close> compares the dictionaries' contents.\<close>

definition reindex_store ::
  "'u host \<Rightarrow> int \<Rightarrow> dict \<Rightarrow> string \<Rightarrow> 'u manager \<Rightarrow> 'u manager result" where
  "reindex_store h deleted_num data_dict file_path s =
     (case reindex_items (int_max_str_digits h) deleted_num [] data_dict of
        Inl e \<Rightarrow> Raises e (left_by s)
      | Inr new_data \<Rightarrow>
          let s1 = (if dict_eq data_dict (notes s) then s\<lparr>notes := new_data\<rparr>
                    else s\<lparr>services := new_data\<rparr>)
          in save_notes_or_services h file_path new_data s1)"

text \<open>\<^verbatim>\<open>_delete_firewall_rule\<close>. The list of the two dictionaries is built before the
  loop, from the state \<open>s2\<close>. On natural numbers \<open>i - 1\<close> is \<^verbatim>\<open>max(0, i - 1)\<close>.\<close>

definition delete_firewall_rule ::
  "'u host \<Rightarrow> reading \<Rightarrow> 'u manager \<Rightarrow> 'u manager result" where
  "delete_firewall_rule h typed s =
     (if rules s = [] \<or> selected_index s \<ge> length (rules s)
      then Returns (s\<lparr>status_message := ''No rule selected to delete.''\<rparr>)
      else
        let rule_num_str = strip_brackets (fst (rules s ! selected_index s)) in
        if \<not> py_isdigit rule_num_str
        then Returns (s\<lparr>status_message := ''This line is not a deletable rule.''\<rparr>)
        else
          (case confirm_action typed of
             Inl e \<Rightarrow> Raises e (left_by s)
           | Inr confirmed \<Rightarrow>
               if \<not> confirmed then Returns s
               else
                 (case run_command h (''sudo ufw delete '' @ rule_num_str) (Some ''y'') s of
                    (Inl err, s1) \<Rightarrow>
                      Returns (s1\<lparr>status_message := ''Error deleting rule: '' @ py_strip err\<rparr>)
                  | (Inr out, s1) \<Rightarrow>
                      let s2 = s1\<lparr>status_message :=
                                   ''Rule '' @ rule_num_str @ '' deleted successfully.''\<rparr>
                      in (case py_int (int_max_str_digits h) rule_num_str of
                            None \<Rightarrow> Raises ValueError (left_by s2)
                          | Some deleted_num \<Rightarrow>
                              and_then (reindex_store h deleted_num (notes s2) (notes_file s2) s2)
                                (\<lambda>s3. and_then
                                   (reindex_store h deleted_num (services s2) (services_file s2) s3)
                                   (\<lambda>s4. get_firewall_rules h
                                      (s4\<lparr>selected_index := selected_index s4 - 1\<rparr>)))))))"

subsection \<open>The rule form\<close>

text \<open>The key codes of the curses library.\<close>

definition KEY_DOWN :: int where "KEY_DOWN = 258"
definition KEY_UP :: int where "KEY_UP = 259"
definition KEY_LEFT :: int where "KEY_LEFT = 260"
definition KEY_RIGHT :: int where "KEY_RIGHT = 261"
definition KEY_BACKSPACE :: int where "KEY_BACKSPACE = 263"
definition KEY_ENTER :: int where "KEY_ENTER = 343"
definition KEY_BTAB :: int where "KEY_BTAB = 353"

definition actions :: "string list" where
  "actions = [''allow'', ''deny'', ''reject'', ''limit'']"

definition protocols :: "string list" where
  "protocols = [''tcp'', ''udp'', ''any'']"

definition directions :: "string list" where
  "directions = [''in'', ''out'']"

text \<open>The dictionary \<^verbatim>\<open>fields\<close>: for a dropdown the index of the chosen option, for a
  text field its text.\<close>

record fields =
  Action :: nat
  Direction :: nat
  Protocol :: nat
  Port :: string
  From_To_IP :: string
  Service :: string
  Note :: string

definition default_fields :: fields where
  "default_fields =
     \<lparr>Action = 0, Direction = 0, Protocol = 0, Port = [], From_To_IP = ''any'',
      Service = [], Note = []\<rparr>"

text \<open>\<^verbatim>\<open>for i, x in enumerate(options): if p(x): index = i\<close>.\<close>

definition last_index :: "(string \<Rightarrow> bool) \<Rightarrow> string list \<Rightarrow> nat \<Rightarrow> nat" where
  "last_index p options start =
     foldl (\<lambda>cur (i, x). if p x then i else cur) start (enumerate 0 options)"

text \<open>\<^verbatim>\<open>re.search(r'(\d+)', s)\<close>: the first run of digits, empty when there is no match.\<close>

definition first_digits :: "string \<Rightarrow> string" where
  "first_digits s = takeWhile is_digit (dropWhile (\<lambda>c. \<not> is_digit c) s)"

text \<open>
  \<^verbatim>\<open>re.search(r'\b(allow|deny|reject|limit)\b(\s+in)?(\s+out)?', s)\<close>: the text of the
  leftmost match. \<open>opt_group w r\<close> is what the optional group for \<open>w\<close> matches at the
  start of \<open>r\<close>; \<open>match_action_here\<close> matches at a position that follows no word
  character; \<open>action_search\<close> scans the positions, knowing whether the previous
  character is a word character.
\<close>

definition opt_group :: "string \<Rightarrow> string \<Rightarrow> string" where
  "opt_group w r =
     (let blanks = takeWhile py_isspace r
      in if blanks \<noteq> [] \<and> startswith (dropWhile py_isspace r) w then blanks @ w else [])"

definition match_action_here :: "string \<Rightarrow> string option" where
  "match_action_here s =
     (case find (startswith s) actions of
        None \<Rightarrow> None
      | Some a \<Rightarrow>
          let r = drop (length a) s in
          if (case r of [] \<Rightarrow> False | c # _ \<Rightarrow> is_word c) then None
          else
            let g1 = opt_group ''in'' r;
                g2 = opt_group ''out'' (drop (length g1) r)
            in Some (a @ g1 @ g2))"

fun action_search :: "bool \<Rightarrow> string \<Rightarrow> string option" where
  "action_search after_word [] = None"
| "action_search after_word (c # cs) =
     (case (if after_word then None else match_action_here (c # cs)) of
        Some m \<Rightarrow> Some m
      | None \<Rightarrow> action_search (is_word c) cs)"

definition action_match :: "string \<Rightarrow> string option" where
  "action_match s = action_search False s"

text \<open>The block \<^verbatim>\<open>if existing_rule:\<close> of \<^verbatim>\<open>_get_rule_input_from_form\<close>. Indexing the
  empty list of words raises \<^verbatim>\<open>IndexError\<close>.\<close>

definition prefill :: "dict \<Rightarrow> dict \<Rightarrow> string \<times> string \<Rightarrow> error + fields" where
  "prefill services_d notes_d existing_rule =
     (let rule_num = strip_brackets (fst existing_rule);
          rule_text = py_lower (snd existing_rule);
          f1 = default_fields
                 \<lparr>Action := last_index (\<lambda>a. contains a rule_text) actions 0,
                  Direction := last_index (\<lambda>d. contains ('' '' @ d @ '' '') rule_text) directions 0\<rparr>;
          f2 = (if first_digits rule_text = [] then f1 else f1\<lparr>Port := first_digits rule_text\<rparr>)
      in case (case action_match rule_text of
                 None \<Rightarrow> Inr f2
               | Some action_str \<Rightarrow>
                   (case split_first action_str rule_text of
                      None \<Rightarrow> Inl IndexError
                    | Some (before, after) \<Rightarrow>
                        (case py_split (py_strip after) of
                           [] \<Rightarrow> Inl IndexError
                         | from_ip # _ \<Rightarrow>
                             Inr (if from_ip \<noteq> [] \<and> py_lower from_ip \<noteq> ''anywhere''
                                  then f2\<lparr>From_To_IP := from_ip\<rparr> else f2)))) of
           Inl e \<Rightarrow> Inl e
         | Inr f3 \<Rightarrow>
             Inr (f3\<lparr>Service := dict_get services_d rule_num [],
                      Note := dict_get notes_d rule_num []\<rparr>))"

definition initial_fields :: "'u manager \<Rightarrow> (string \<times> string) option \<Rightarrow> error + fields" where
  "initial_fields s existing_rule =
     (case existing_rule of
        None \<Rightarrow> Inr default_fields
      | Some r \<Rightarrow> prefill (services s) (notes s) r)"

text \<open>A key on a dropdown with \<open>n\<close> options, and a key on a text field with a limit.\<close>

definition cycle :: "nat \<Rightarrow> nat \<Rightarrow> int \<Rightarrow> nat" where
  "cycle n current_idx key =
     (if key = KEY_LEFT then (current_idx + n - 1) mod n
      else if key = KEY_RIGHT then (current_idx + 1) mod n
      else current_idx)"

definition type_key :: "nat \<Rightarrow> string \<Rightarrow> int \<Rightarrow> string" where
  "type_key limit text key =
     (if key \<in> {KEY_BACKSPACE, 127, 8} then butlast text
      else if 32 \<le> key \<and> key \<le> 126
        then (if length text \<ge> limit then text else text @ [char_of (nat key)])
      else text)"

text \<open>The last branches of the key loop, for the field at position \<open>i\<close> of
  \<^verbatim>\<open>field_order\<close>.\<close>

definition edit_field :: "fields \<Rightarrow> nat \<Rightarrow> int \<Rightarrow> fields" where
  "edit_field f i key =
     (if i = 0 then f\<lparr>Action := cycle (length actions) (Action f) key\<rparr>
      else if i = 1 then f\<lparr>Direction := cycle (length directions) (Direction f) key\<rparr>
      else if i = 2 then f\<lparr>Protocol := cycle (length protocols) (Protocol f) key\<rparr>
      else if i = 3 then f\<lparr>Port := type_key 5 (Port f) key\<rparr>
      else if i = 4 then f\<lparr>From_To_IP := type_key 15 (From_To_IP f) key\<rparr>
      else if i = 5 then f\<lparr>Service := type_key 18 (Service f) key\<rparr>
      else if i = 6 then f\<lparr>Note := type_key 43 (Note f) key\<rparr>
      else f)"

text \<open>The \<^verbatim>\<open>while True\<close> loop over the keys \<^verbatim>\<open>getch\<close> returns: \<open>Some\<close> the fields when
  Enter ends it, \<open>None\<close> when Escape does, with the keys not read.\<close>

fun form_loop :: "fields \<Rightarrow> nat \<Rightarrow> int list \<Rightarrow> (fields option \<times> int list) result" where
  "form_loop f i [] = Blocks"
| "form_loop f i (key # keys) =
     (if key \<in> {KEY_ENTER, 10, 13} then Returns (Some f, keys)
      else if key = 27 then Returns (None, keys)
      else if key \<in> {KEY_UP, KEY_BTAB} then form_loop f ((i + 7 - 1) mod 7) keys
      else if key \<in> {KEY_DOWN, 9} then form_loop f ((i + 1) mod 7) keys
      else form_loop (edit_field f i key) i keys)"

text \<open>The rule text built after the loop.\<close>

definition build_rule :: "fields \<Rightarrow> string" where
  "build_rule f =
     (let action = actions ! Action f;
          direction = directions ! Direction f;
          protocol = protocols ! Protocol f;
          rule1 = action @ '' '' @ direction;
          rule2 = (if py_lower (From_To_IP f) \<noteq> ''any'' then rule1 @ '' from '' @ From_To_IP f
                   else rule1);
          rule3 = rule2 @ '' to any port '' @ Port f
      in if py_lower protocol \<noteq> ''any'' then rule3 @ '' proto '' @ protocol else rule3)"

text \<open>Every dropdown index is a position of its list of options.\<close>

definition in_range :: "fields \<Rightarrow> bool" where
  "in_range f = (Action f < length actions \<and> Direction f < length directions
     \<and> Protocol f < length protocols)"

text \<open>\<^verbatim>\<open>_get_rule_input_from_form\<close>: the result, the keys not read and the state. An
  option index outside its list raises \<^verbatim>\<open>IndexError\<close>.\<close>

definition get_rule_input_from_form ::
  "(string \<times> string) option \<Rightarrow> int list \<Rightarrow> 'u manager
     \<Rightarrow> ((string \<times> string \<times> string) option \<times> int list \<times> 'u manager) result" where
  "get_rule_input_from_form existing_rule keys s =
     (case initial_fields s existing_rule of
        Inl e \<Rightarrow> Raises e (left_by s)
      | Inr f0 \<Rightarrow>
          and_then (form_loop f0 0 keys)
            (\<lambda>(exit, rest).
               case exit of
                 None \<Rightarrow> Returns (None, rest, s)
               | Some f \<Rightarrow>
                   if \<not> in_range f then Raises IndexError (left_by s)
                   else if \<not> py_isdigit (Port f)
                   then Returns (None, rest, s\<lparr>status_message := ''Error: Port must be a number.''\<rparr>)
                   else Returns (Some (build_rule f, Service f, Note f), rest, s)))"

subsection \<open>Adding and editing a rule\<close>

text \<open>The loop of the edit branch for one dictionary: set the text, or delete the entry
  when the text is empty, and save.\<close>

definition set_or_delete :: "dict \<Rightarrow> string \<Rightarrow> string \<Rightarrow> dict" where
  "set_or_delete data_dict num text =
     (if text \<noteq> [] then setitem data_dict num text
      else if num \<in> fst ` set data_dict then delitem data_dict num
      else data_dict)"

text \<open>\<^verbatim>\<open>new_rules_set - old_rules_set\<close>, as a list without repetitions.\<close>

definition added_rules ::
  "(string \<times> string) list \<Rightarrow> (string \<times> string) list \<Rightarrow> (string \<times> string) list" where
  "added_rules old_rules new_rules = filter (\<lambda>r. r \<notin> set old_rules) (remdups new_rules)"

text \<open>The annotation step of the add branch, after the rules were fetched again.
  \<^verbatim>\<open>set.pop\<close> returns the element the environment chooses.\<close>

definition annotate_added ::
  "'u host \<Rightarrow> (string \<times> string) list \<Rightarrow> string \<Rightarrow> string \<Rightarrow> 'u manager \<Rightarrow> 'u manager result" where
  "annotate_added h old_rules service_text note_text s =
     (let added = added_rules old_rules (rules s) in
      if added = [] then Returns s
      else
        let new_rule_num = strip_brackets (fst (added ! (pop_choice h mod length added)))
        in and_then
             (if service_text \<noteq> []
              then let d = setitem (services s) new_rule_num service_text
                   in save_notes_or_services h (services_file s) d (s\<lparr>services := d\<rparr>)
              else Returns s)
             (\<lambda>s1. if note_text \<noteq> []
                   then let d = setitem (notes s1) new_rule_num note_text
                        in save_notes_or_services h (notes_file s1) d (s1\<lparr>notes := d\<rparr>)
                   else Returns s1))"

definition add_or_edit_rule :: "'u host \<Rightarrow> bool \<Rightarrow> int list \<Rightarrow> 'u manager \<Rightarrow> 'u manager result" where
  "add_or_edit_rule h is_edit keys s =
     (if is_edit \<and> (rules s = [] \<or> selected_index s \<ge> length (rules s))
      then Returns (s\<lparr>status_message := ''No rule selected to edit.''\<rparr>)
      else
        let rule_to_edit = (if is_edit then Some (rules s ! selected_index s) else None);
            old_rule_num = (case rule_to_edit of None \<Rightarrow> [] | Some r \<Rightarrow> strip_brackets (fst r))
        in and_then (get_rule_input_from_form rule_to_edit keys s)
             (\<lambda>(result, rest, s0).
                case result of
                  None \<Rightarrow> Returns s0
                | Some (new_rule_command, service_text, note_text) \<Rightarrow>
                    if is_edit then
                      (case run_command h (''sudo ufw delete '' @ old_rule_num) (Some ''y'') s0 of
                         (Inl err, s1) \<Rightarrow>
                           Returns (s1\<lparr>status_message := ''Error applying rule: '' @ py_strip err\<rparr>)
                       | (Inr out, s1) \<Rightarrow>
                           (case run_command h
                                   (''sudo ufw insert '' @ old_rule_num @ '' '' @ new_rule_command)
                                   None s1 of
                              (Inl err, s2) \<Rightarrow>
                                Returns (s2\<lparr>status_message := ''Error applying rule: '' @ py_strip err\<rparr>)
                            | (Inr out2, s2) \<Rightarrow>
                                let d1 = set_or_delete (services s2) old_rule_num service_text
                                in and_then
                                     (save_notes_or_services h (services_file s2) d1
                                        (s2\<lparr>services := d1\<rparr>))
                                     (\<lambda>s3.
                                        let d2 = set_or_delete (notes s3) old_rule_num note_text
                                        in and_then
                                             (save_notes_or_services h (notes_file s3) d2
                                                (s3\<lparr>notes := d2\<rparr>))
                                             (\<lambda>s4. get_firewall_rules h
                                                (s4\<lparr>status_message :=
                                                      ''Rule applied successfully.''\<rparr>)))))
                    else
                      (case run_command h (''sudo ufw '' @ new_rule_command) None s0 of
                         (Inl err, s1) \<Rightarrow>
                           Returns (s1\<lparr>status_message := ''Error applying rule: '' @ py_strip err\<rparr>)
                       | (Inr out, s1) \<Rightarrow>
                           and_then (get_firewall_rules h s1)
                             (\<lambda>s2. and_then
                                (annotate_added h (rules s0) service_text note_text s2)
                                (\<lambda>s3. get_firewall_rules h
                                   (s3\<lparr>status_message := ''Rule applied successfully.''\<rparr>))))))"

subsection \<open>Resetting the firewall\<close>


subsection \<open>Environments for the examples\<close>

text \<open>A tool that accepts every command and prints nothing; a tool whose state is its
  listing, which no command changes (as when it skips a rule that exists already); and a
  tool whose state is the list of its rules, which prints them numbered and appends the
  text of every other command as a new rule. No file operation fails in any of them, and
  the limit on integer conversions is the interpreter's default.\<close>

definition accepting_host :: "unit host" where
  "accepting_host =
     \<lparr>shell = (\<lambda>line t. (Inr [], t)), io_error = (\<lambda>op. None), pop_choice = 0,
      int_max_str_digits = 4300\<rparr>"

definition listing_host :: "string host" where
  "listing_host =
     \<lparr>shell = (\<lambda>line t. if line = ''sudo ufw status numbered'' then (Inr t, t) else (Inr [], t)),
      io_error = (\<lambda>op. None), pop_choice = 0, int_max_str_digits = 4300\<rparr>"

fun numbered :: "nat \<Rightarrow> string list \<Rightarrow> string" where
  "numbered n [] = []"
| "numbered n (r # rs) =
     ''[ '' @ int_text (int n) @ ''] '' @ r @ [CHR 0x0A] @ numbered (Suc n) rs"

definition appending_host :: "string list host" where
  "appending_host =
     \<lparr>shell = (\<lambda>line t. if line = ''sudo ufw status numbered''
                 then (Inr (''Status: active'' @ [CHR 0x0A] @ numbered 1 t), t)
                 else (Inr [], t @ [drop 9 line])),
      io_error = (\<lambda>op. None), pop_choice = 0, int_max_str_digits = 4300\<rparr>"

section \<open>Properties\<close>

subsection \<open>Digits, integers and the tool's listing\<close>

lemma code_digit_char: "d < 10 \<Longrightarrow> code (digit_char d) = 48 + d"
  by (simp add: code_def digit_char_def)

lemma is_digit_digit_char: "d < 10 \<Longrightarrow> is_digit (digit_char d)"
  by (simp add: is_digit_def code_digit_char)

lemma digit_val_digit_char: "d < 10 \<Longrightarrow> digit_val (digit_char d) = d"
  by (simp add: digit_val_def code_digit_char)

lemma nat_digits_nonempty: "nat_digits n \<noteq> []"
  by (subst nat_digits.simps) simp

lemma nat_digits_all_digits: "list_all is_digit (nat_digits n)"
proof (induction n rule: nat_digits.induct)
  case (1 n)
  show ?case
  proof (cases "n < 10")
    case True
    then show ?thesis by (subst nat_digits.simps) (simp add: is_digit_digit_char)
  next
    case False
    with 1 show ?thesis by (subst nat_digits.simps) (simp add: is_digit_digit_char)
  qed
qed

lemma is_decimal_nat_digits: "is_decimal (nat_digits n)"
  by (simp add: is_decimal_def nat_digits_nonempty nat_digits_all_digits)

lemma is_decimal_isdigit: "is_decimal s \<Longrightarrow> py_isdigit s"
  by (auto simp: is_decimal_def py_isdigit_def isdigit_char_def list_all_iff)

lemma py_isdigit_nat_digits: "py_isdigit (nat_digits n)"
  by (simp add: is_decimal_isdigit is_decimal_nat_digits)

lemma dec_value_snoc: "dec_value (s @ [c]) = 10 * dec_value s + digit_val c"
  by (simp add: dec_value_def)

lemma dec_value_nat_digits: "dec_value (nat_digits n) = n"
proof (induction n rule: nat_digits.induct)
  case (1 n)
  show ?case
  proof (cases "n < 10")
    case True
    then show ?thesis
      by (subst nat_digits.simps) (simp add: dec_value_def digit_val_digit_char)
  next
    case False
    with 1 show ?thesis
      by (subst nat_digits.simps) (simp add: dec_value_snoc digit_val_digit_char)
  qed
qed

lemma is_digit_not_underscore: "is_digit c \<Longrightarrow> c \<noteq> CHR ''_''"
  by (auto simp: is_digit_def code_def)

lemma int_digits_all: "s \<noteq> [] \<Longrightarrow> list_all is_digit s \<Longrightarrow> int_digits s = Some s"
  by (induction s rule: int_digits.induct) (auto simp: is_digit_not_underscore)

lemma strip_where_id:
  assumes "s \<noteq> []" "\<not> p (hd s)" "\<not> p (last s)"
  shows "strip_where p s = s"
proof -
  from assms have a: "dropWhile p s = s" by (cases s) auto
  from assms have "rev s \<noteq> []" "\<not> p (hd (rev s))" by (auto simp: hd_rev)
  then have "dropWhile p (rev s) = rev s" by (cases "rev s") auto
  with a show ?thesis by (simp add: strip_where_def)
qed

lemma digit_not_c_space: "is_digit c \<Longrightarrow> \<not> c_isspace c"
  by (auto simp: is_digit_def c_isspace_def)

lemma digit_not_space: "isdigit_char c \<Longrightarrow> \<not> py_isspace c"
  by (auto simp: isdigit_char_def is_superscript_def is_digit_def py_isspace_def)

lemma digit_not_sign: "is_digit c \<Longrightarrow> c \<noteq> CHR ''-'' \<and> c \<noteq> CHR ''+'' \<and> c \<noteq> CHR '':''"
  by (auto simp: is_digit_def code_def)

lemma isdigit_ends:
  "py_isdigit s \<Longrightarrow> s \<noteq> [] \<and> isdigit_char (hd s) \<and> isdigit_char (last s)"
  by (cases s) (auto simp: py_isdigit_def list_all_iff)

lemma decimal_ends: "is_decimal s \<Longrightarrow> s \<noteq> [] \<and> is_digit (hd s) \<and> is_digit (last s)"
  by (cases s) (auto simp: is_decimal_def list_all_iff)

text \<open>On a decimal numeral within the limit \<^verbatim>\<open>int\<close> returns its value.\<close>

lemma py_int_decimal:
  assumes d: "is_decimal s" and l: "\<not> too_long max_digits (length s)"
  shows "py_int max_digits s = Some (int (dec_value s))"
proof -
  from d have e: "s \<noteq> []" "is_digit (hd s)" "is_digit (last s)" using decimal_ends by auto
  then have "strip_where c_isspace s = s" by (intro strip_where_id) (auto simp: digit_not_c_space)
  moreover obtain c r where s: "s = c # r" using e by (cases s) auto
  moreover have "int_digits s = Some s" using d by (simp add: int_digits_all is_decimal_def)
  ultimately show ?thesis using e l digit_not_sign[of c] by (simp add: py_int_def int_literal_def)
qed

text \<open>A text with a superscript digit passes \<^verbatim>\<open>isdigit\<close> and is refused by \<^verbatim>\<open>int\<close>; so is a
  decimal numeral of more digits than the limit.\<close>

lemma int_digits_digits: "int_digits s = Some d \<Longrightarrow> list_all is_digit d"
  by (induction s arbitrary: d rule: int_digits.induct) (auto split: if_splits)

lemma int_digits_chars:
  "int_digits s = Some d \<Longrightarrow> list_all (\<lambda>c. is_digit c \<or> c = CHR ''_'') s"
  by (induction s arbitrary: d rule: int_digits.induct) (auto split: if_splits)

lemma py_int_too_long:
  "is_decimal s \<Longrightarrow> too_long max_digits (length s) \<Longrightarrow> py_int max_digits s = None"
proof -
  assume d: "is_decimal s" and l: "too_long max_digits (length s)"
  from d have e: "s \<noteq> []" "is_digit (hd s)" "is_digit (last s)" using decimal_ends by auto
  then have "strip_where c_isspace s = s" by (intro strip_where_id) (auto simp: digit_not_c_space)
  moreover obtain c r where s: "s = c # r" using e by (cases s) auto
  moreover have "int_digits s = Some s" using d by (simp add: int_digits_all is_decimal_def)
  ultimately show ?thesis using e l digit_not_sign[of c] by (simp add: py_int_def int_literal_def)
qed

lemma py_strip_isdigit: "py_isdigit s \<Longrightarrow> py_strip s = s"
  unfolding py_strip_def using isdigit_ends[of s] by (intro strip_where_id) (auto simp: digit_not_space)

lemma is_decimal_int_text: "0 \<le> n \<Longrightarrow> is_decimal (int_text n)"
  by (simp add: int_text_def is_decimal_nat_digits)

lemma py_isdigit_int_text: "0 \<le> n \<Longrightarrow> py_isdigit (int_text n)"
  by (simp add: is_decimal_isdigit is_decimal_int_text)

lemma dec_value_int_text: "0 \<le> n \<Longrightarrow> int (dec_value (int_text n)) = n"
  by (simp add: int_text_def dec_value_nat_digits)

lemma py_int_int_text:
  "0 \<le> n \<Longrightarrow> \<not> too_long max_digits (length (int_text n)) \<Longrightarrow>
     py_int max_digits (int_text n) = Some n"
  using py_int_decimal[of "int_text n" max_digits] by (simp add: is_decimal_int_text dec_value_int_text)

text \<open>The numeral of a smaller number is not longer, so \<^verbatim>\<open>str(num - 1)\<close> is within the limit
  when \<^verbatim>\<open>int\<close> has read \<open>num\<close> from a numeral.\<close>

lemma nat_digits_length: "length (nat_digits n) = (if n < 10 then 1 else Suc (length (nat_digits (n div 10))))"
  by (subst nat_digits.simps) simp

lemma nat_digits_mono: "m \<le> n \<Longrightarrow> length (nat_digits m) \<le> length (nat_digits n)"
proof (induction n arbitrary: m rule: nat_digits.induct)
  case (1 n)
  show ?case
  proof (cases "m < 10")
    case True
    then show ?thesis by (subst nat_digits_length, subst (2) nat_digits_length) simp
  next
    case False
    with 1 have n: "\<not> n < 10" and d: "m div 10 \<le> n div 10" by (auto intro: div_le_mono)
    from 1(1)[OF n d] False n show ?thesis
      by (subst nat_digits_length, subst (2) nat_digits_length) simp
  qed
qed

lemma too_long_mono: "\<not> too_long max_digits n \<Longrightarrow> m \<le> n \<Longrightarrow> \<not> too_long max_digits m"
  by (auto simp: too_long_def)

lemma py_str_int_text:
  "0 \<le> i \<Longrightarrow> \<not> too_long max_digits (length (int_text i)) \<Longrightarrow> py_str max_digits i = Some (int_text i)"
  by (simp add: py_str_def int_text_def)

lemma startswith_set: "startswith s p \<Longrightarrow> set p \<subseteq> set s"
  by (induction s p rule: startswith.induct) auto

lemma contains_set: "contains p s \<Longrightarrow> set p \<subseteq> set s"
proof (induction s)
  case Nil
  then show ?case by simp
next
  case (Cons a s)
  then show ?case using startswith_set[of "a # s" p] by auto
qed

lemma split_on_nonempty: "split_on c s \<noteq> []"
  by (induction s) (auto split: list.splits)

lemma split_on_two: "c \<in> set s \<Longrightarrow> \<exists>a b r. split_on c s = a # b # r"
proof (induction s)
  case Nil
  then show ?case by simp
next
  case (Cons x s)
  show ?case
  proof (cases "x = c")
    case True
    then show ?thesis using split_on_nonempty[of c s] by (cases "split_on c s") auto
  next
    case False
    with Cons obtain a b r where "split_on c s = a # b # r" by auto
    with False show ?thesis by simp
  qed
qed

lemma status_field_ok: "\<exists>st. status_field lines = Inr st"
proof -
  define status_line where
    "status_line = (case filter (contains ''Status:'') lines of [] \<Rightarrow> ''Status: inactive'' | l # _ \<Rightarrow> l)"
  have "contains ''Status:'' status_line"
  proof (cases "filter (contains ''Status:'') lines")
    case Nil
    then show ?thesis by (simp add: status_line_def)
  next
    case (Cons l ls)
    then have "l \<in> set (filter (contains ''Status:'') lines)" by simp
    then have "contains ''Status:'' l" by simp
    then show ?thesis using Cons by (simp add: status_line_def)
  qed
  then have "CHR '':'' \<in> set status_line" using contains_set by fastforce
  then obtain a b r where "split_on CHR '':'' status_line = a # b # r"
    using split_on_two by blast
  then show ?thesis by (simp add: status_field_def status_line_def[symmetric])
qed

lemma get_firewall_rules_returns: "\<exists>s'. get_firewall_rules h s = Returns s'"
proof -
  obtain r s1 where rc: "run_command h ''sudo ufw status numbered'' None s = (r, s1)"
    by (cases "run_command h ''sudo ufw status numbered'' None s")
  show ?thesis
  proof (cases r)
    case (Inl err)
    with rc show ?thesis by (simp add: get_firewall_rules_def)
  next
    case (Inr out)
    obtain st where "status_field (split_on (CHR 0x0A) (py_strip out)) = Inr st"
      using status_field_ok by blast
    with rc Inr show ?thesis by (simp add: get_firewall_rules_def Let_def)
  qed
qed

lemma run_command_frame:
  "run_command h c i s = (r, s') \<Longrightarrow>
     notes s' = notes s \<and> services s' = services s \<and> files s' = files s \<and> rules s' = rules s
     \<and> notes_dir s' = notes_dir s \<and> selected_index s' = selected_index s
     \<and> status_message s' = status_message s"
  by (auto simp: run_command_def Let_def split: prod.splits)

lemma get_firewall_rules_frame:
  "get_firewall_rules h s = Returns s' \<Longrightarrow>
     notes s' = notes s \<and> services s' = services s \<and> files s' = files s
     \<and> notes_dir s' = notes_dir s \<and> selected_index s' = selected_index s"
  by (auto simp: get_firewall_rules_def Let_def split: prod.splits sum.splits if_splits
      dest!: run_command_frame)

subsection \<open>The key loop of the form\<close>

lemma cycle_less: "current_idx < n \<Longrightarrow> cycle n current_idx key < n"
  by (simp add: cycle_def)

lemma type_key_length: "length (type_key limit text key) \<le> max limit (length text)"
  by (auto simp: type_key_def max_def)

lemma form_loop_invariant:
  assumes step: "\<And>g i key. P g \<Longrightarrow> P (edit_field g i key)"
  shows "P f \<Longrightarrow> form_loop f i keys = Returns (Some f', rest) \<Longrightarrow> P f'"
proof (induction keys arbitrary: f i)
  case Nil
  then show ?case by simp
next
  case (Cons key keys)
  then show ?case by (auto split: if_splits intro: step)
qed


lemma edit_field_in_range: "in_range g \<Longrightarrow> in_range (edit_field g i key)"
  by (simp add: in_range_def edit_field_def cycle_less)

lemma last_index_less:
  assumes "start < length options"
  shows "last_index p options start < length options"
proof -
  have "\<And>cur. cur < n + length options \<Longrightarrow>
      foldl (\<lambda>cur (i, x). if p x then i else cur) cur (enumerate n options) < n + length options" for n
  proof (induction options arbitrary: n)
    case Nil
    then show ?case by simp
  next
    case (Cons x xs)
    from Cons.IH[of _ "Suc n"] Cons.prems show ?case by simp
  qed
  from this[of start 0] assms show ?thesis by (simp add: last_index_def)
qed

lemma prefill_in_range: "prefill sv nt r = Inr f \<Longrightarrow> in_range f"
proof -
  have a: "last_index p actions 0 < length actions" for p
    by (rule last_index_less) (simp add: actions_def)
  have d: "last_index p directions 0 < length directions" for p
    by (rule last_index_less) (simp add: directions_def)
  have p: "0 < length protocols" by (simp add: protocols_def)
  assume "prefill sv nt r = Inr f"
  then show ?thesis using a d p
    by (auto simp: prefill_def Let_def default_fields_def in_range_def
      split: option.splits list.splits if_splits sum.splits prod.splits)
qed

lemma default_in_range: "in_range default_fields"
  by (simp add: in_range_def default_fields_def actions_def directions_def protocols_def)

lemma initial_fields_in_range: "initial_fields s e = Inr f \<Longrightarrow> in_range f"
  by (cases e) (auto simp: initial_fields_def default_in_range dest: prefill_in_range)

lemma committed_in_range:
  "initial_fields s e = Inr f0 \<Longrightarrow> form_loop f0 0 keys = Returns (Some f, rest) \<Longrightarrow> in_range f"
  using form_loop_invariant[of in_range f0 0 keys f rest] edit_field_in_range initial_fields_in_range
  by blast

lemma returns_value:
  "(case r of Returns x \<Rightarrow> Some x | Raises e w \<Rightarrow> None | Blocks \<Rightarrow> None) = Some v \<Longrightarrow> r = Returns v"
  by (cases r) auto

lemma form_loop_append:
  "form_loop f i keys = Returns (x, rest) \<Longrightarrow> form_loop f i (keys @ later) = Returns (x, rest @ later)"
  by (induction keys arbitrary: f i) (auto split: if_splits)

lemma py_lower_any: "py_lower ''any'' = ''any''"
  by (simp add: py_lower_def lower_char_def code_def)

lemma protocols_lower: "i < length protocols \<Longrightarrow> py_lower (protocols ! i) = protocols ! i"
  by (auto simp: protocols_def less_Suc_eq py_lower_def lower_char_def code_def)

lemma build_rule_shape:
  "in_range f \<Longrightarrow> build_rule f =
     actions ! Action f @ '' '' @ directions ! Direction f
       @ (if py_lower (From_To_IP f) = ''any'' then [] else '' from '' @ From_To_IP f)
       @ '' to any port '' @ Port f
       @ (if protocols ! Protocol f = ''any'' then [] else '' proto '' @ protocols ! Protocol f)"
  by (simp add: build_rule_def Let_def protocols_lower in_range_def)

lemma form_result:
  assumes "initial_fields s e = Inr f0" "form_loop f0 0 keys = Returns (Some f, rest)"
  shows "get_rule_input_from_form e keys s =
     (if py_isdigit (Port f) then Returns (Some (build_rule f, Service f, Note f), rest, s)
      else Returns (None, rest, s\<lparr>status_message := ''Error: Port must be a number.''\<rparr>))"
  using assms committed_in_range[OF assms]
  by (simp add: get_rule_input_from_form_def and_then_def)

subsection \<open>The command the form builds\<close>

lemma default_form_22:
  "form_loop default_fields 0 [9, 9, 9, 50, 50, 10] =
     Returns (Some \<lparr>Action = 0, Direction = 0, Protocol = 0, Port = ''22'', From_To_IP = ''any'',
          Service = [], Note = []\<rparr>, [])"
  by (rule returns_value) code_simp

lemma isdigit_22: "py_isdigit ''22''"
  by (simp add: py_isdigit_def isdigit_char_def is_superscript_def is_digit_def code_def)

text \<open>
  Claim C3: whenever the form is committed with a port of digits, the command is the
  action and the direction, then \<open>from\<close> and the address unless the address is \<open>any\<close>
  (in any letter case), then \<open>to any port\<close> and the port, then \<open>proto\<close> and the protocol
  unless the protocol is \<open>any\<close>; the two commands of the claim are built as it says.
\<close>

theorem command_token_order:
  "initial_fields s existing_rule = Inr f0 \<Longrightarrow>
   form_loop f0 0 keys = Returns (Some f, rest) \<Longrightarrow>
   py_isdigit (Port f) \<Longrightarrow>
     get_rule_input_from_form existing_rule keys s =
       Returns (Some (actions ! Action f @ '' '' @ directions ! Direction f
                        @ (if py_lower (From_To_IP f) = ''any'' then [] else '' from '' @ From_To_IP f)
                        @ '' to any port '' @ Port f
                        @ (if protocols ! Protocol f = ''any'' then []
                           else '' proto '' @ protocols ! Protocol f),
                      Service f, Note f), rest, s)
     \<and> Action f < length actions \<and> Direction f < length directions
     \<and> Protocol f < length protocols
     \<and> build_rule \<lparr>Action = 0, Direction = 0, Protocol = 0, Port = ''22'', From_To_IP = ''any'',
          Service = sv, Note = nt\<rparr> = ''allow in to any port 22 proto tcp''
     \<and> build_rule \<lparr>Action = 0, Direction = 0, Protocol = 0, Port = ''22'',
          From_To_IP = ''10.0.0.5'', Service = sv, Note = nt\<rparr>
         = ''allow in from 10.0.0.5 to any port 22 proto tcp''"
proof -
  assume a: "initial_fields s existing_rule = Inr f0" "form_loop f0 0 keys = Returns (Some f, rest)"
    and d: "py_isdigit (Port f)"
  have r: "in_range f" using a by (rule committed_in_range)
  have 1: "get_rule_input_from_form existing_rule keys s =
      Returns (Some (build_rule f, Service f, Note f), rest, s)"
    using form_result[OF a] d by simp
  have 2: "build_rule \<lparr>Action = 0, Direction = 0, Protocol = 0, Port = ''22'', From_To_IP = ''any'',
          Service = sv, Note = nt\<rparr> = ''allow in to any port 22 proto tcp''"
    by (simp add: build_rule_def Let_def actions_def directions_def protocols_def py_lower_def
        lower_char_def code_def)
  have 3: "build_rule \<lparr>Action = 0, Direction = 0, Protocol = 0, Port = ''22'',
          From_To_IP = ''10.0.0.5'', Service = sv, Note = nt\<rparr>
         = ''allow in from 10.0.0.5 to any port 22 proto tcp''"
    by (simp add: build_rule_def Let_def actions_def directions_def protocols_def py_lower_def
        lower_char_def code_def)
  show ?thesis using 1 2 3 r build_rule_shape[OF r] by (simp add: in_range_def)
qed

theorem command_token_order_witness:
  "initial_fields (fresh ''/h'' Map.empty ()) None = Inr default_fields
   \<and> form_loop default_fields 0 [9, 9, 9, 50, 50, 10] =
     Returns (Some \<lparr>Action = 0, Direction = 0, Protocol = 0, Port = ''22'', From_To_IP = ''any'',
          Service = [], Note = []\<rparr>, [])
   \<and> py_isdigit ''22''
   \<and> get_rule_input_from_form None [9, 9, 9, 50, 50, 10] (fresh ''/h'' Map.empty ()) =
       Returns (Some (''allow in to any port 22 proto tcp'', [], []), [], fresh ''/h'' Map.empty ())"
proof -
  have i: "initial_fields (fresh ''/h'' Map.empty ()) None = Inr default_fields"
    by (simp add: initial_fields_def)
  have d: "py_isdigit (Port \<lparr>Action = 0, Direction = 0, Protocol = 0, Port = ''22'',
      From_To_IP = ''any'', Service = [], Note = []\<rparr>)"
    by (simp add: isdigit_22)
  show ?thesis
    using i default_form_22 isdigit_22 command_token_order[OF i default_form_22 d]
    by (simp add: actions_def directions_def protocols_def py_lower_any)
qed

subsection \<open>A commit with an invalid port\<close>

lemma default_form_abc:
  "form_loop default_fields 0 [9, 9, 9, 97, 98, 99, 10] =
     Returns (Some \<lparr>Action = 0, Direction = 0, Protocol = 0, Port = ''abc'', From_To_IP = ''any'',
          Service = [], Note = []\<rparr>, [])"
  by (rule returns_value) code_simp

lemma not_isdigit_abc: "\<not> py_isdigit ''abc''"
  by (simp add: py_isdigit_def isdigit_char_def is_superscript_def is_digit_def code_def)

text \<open>
  Claim C4: when the form is committed with a port that is not a string of digits (the
  empty port, \<open>abc\<close>), the form yields no command, and adding or editing returns with
  the error message only: no command line is run, the tool and the files are as before.
\<close>

theorem invalid_port_issues_nothing:
  "\<not> (is_edit \<and> (rules s = [] \<or> length (rules s) \<le> selected_index s)) \<Longrightarrow>
   initial_fields s (if is_edit then Some (rules s ! selected_index s) else None) = Inr f0 \<Longrightarrow>
   form_loop f0 0 keys = Returns (Some f, rest) \<Longrightarrow>
   \<not> py_isdigit (Port f) \<Longrightarrow>
     get_rule_input_from_form (if is_edit then Some (rules s ! selected_index s) else None) keys s =
       Returns (None, rest, s\<lparr>status_message := ''Error: Port must be a number.''\<rparr>)
     \<and> add_or_edit_rule h is_edit keys s =
         Returns (s\<lparr>status_message := ''Error: Port must be a number.''\<rparr>)
     \<and> (\<exists>s'. add_or_edit_rule h is_edit keys s = Returns s' \<and> issued s' = issued s
           \<and> tool s' = tool s \<and> files s' = files s)"
proof -
  assume sel: "\<not> (is_edit \<and> (rules s = [] \<or> length (rules s) \<le> selected_index s))"
    and a: "initial_fields s (if is_edit then Some (rules s ! selected_index s) else None) = Inr f0"
      "form_loop f0 0 keys = Returns (Some f, rest)"
    and d: "\<not> py_isdigit (Port f)"
  have 1: "get_rule_input_from_form (if is_edit then Some (rules s ! selected_index s) else None) keys s =
       Returns (None, rest, s\<lparr>status_message := ''Error: Port must be a number.''\<rparr>)"
    using form_result[OF a] d by simp
  have 2: "add_or_edit_rule h is_edit keys s =
         Returns (s\<lparr>status_message := ''Error: Port must be a number.''\<rparr>)"
    using sel 1 by (auto simp: add_or_edit_rule_def Let_def and_then_def)
  show ?thesis using 1 2 by simp
qed

theorem invalid_port_issues_nothing_witness:
  "\<not> (False \<and> (rules (fresh ''/h'' Map.empty ()) = []
        \<or> length (rules (fresh ''/h'' Map.empty ())) \<le> selected_index (fresh ''/h'' Map.empty ())))
   \<and> initial_fields (fresh ''/h'' Map.empty ()) None = Inr default_fields
   \<and> form_loop default_fields 0 [9, 9, 9, 97, 98, 99, 10] =
     Returns (Some \<lparr>Action = 0, Direction = 0, Protocol = 0, Port = ''abc'', From_To_IP = ''any'',
          Service = [], Note = []\<rparr>, [])
   \<and> \<not> py_isdigit ''abc''
   \<and> add_or_edit_rule accepting_host False [9, 9, 9, 97, 98, 99, 10] (fresh ''/h'' Map.empty ()) =
       Returns ((fresh ''/h'' Map.empty ())\<lparr>status_message := ''Error: Port must be a number.''\<rparr>)"
proof -
  let ?s = "fresh ''/h'' Map.empty ()"
  have sel: "\<not> (False \<and> (rules ?s = [] \<or> length (rules ?s) \<le> selected_index ?s))" by simp
  have i: "initial_fields ?s (if False then Some (rules ?s ! selected_index ?s) else None)
      = Inr default_fields"
    by (simp add: initial_fields_def)
  have d: "\<not> py_isdigit (Port \<lparr>Action = 0, Direction = 0, Protocol = 0, Port = ''abc'',
      From_To_IP = ''any'', Service = [], Note = []\<rparr>)"
    by (simp add: not_isdigit_abc)
  show ?thesis
    using i default_form_abc not_isdigit_abc
      invalid_port_issues_nothing[OF sel i default_form_abc d, of accepting_host]
    by simp
qed

text \<open>
  Claim C5, as the code has it: a commit with a port that is not a string of digits is
  rejected by closing the form. The call returns no result, whatever keys follow the
  committing Enter are not read by the form, and the state keeps nothing of the fields but
  the error message: a form opened next starts again from the initial fields. (The claim
  has the form stay open with the value still editable.)
\<close>

theorem rejected_commit_closes_form:
  "initial_fields s existing_rule = Inr f0 \<Longrightarrow>
   form_loop f0 0 keys = Returns (Some f, []) \<Longrightarrow>
   \<not> py_isdigit (Port f) \<Longrightarrow>
     get_rule_input_from_form existing_rule (keys @ later) s =
       Returns (None, later, s\<lparr>status_message := ''Error: Port must be a number.''\<rparr>)
     \<and> initial_fields (s\<lparr>status_message := ''Error: Port must be a number.''\<rparr>) existing_rule
         = Inr f0"
proof -
  assume i: "initial_fields s existing_rule = Inr f0"
    and l: "form_loop f0 0 keys = Returns (Some f, [])"
    and d: "\<not> py_isdigit (Port f)"
  have "form_loop f0 0 (keys @ later) = Returns (Some f, later)"
    using form_loop_append[OF l, of later] by simp
  from form_result[OF i this] d i show ?thesis
    by (cases existing_rule) (simp_all add: initial_fields_def)
qed

theorem rejected_commit_closes_form_witness:
  "initial_fields (fresh ''/h'' Map.empty ()) None = Inr default_fields
   \<and> form_loop default_fields 0 [9, 9, 9, 97, 98, 99, 10] =
     Returns (Some \<lparr>Action = 0, Direction = 0, Protocol = 0, Port = ''abc'', From_To_IP = ''any'',
          Service = [], Note = []\<rparr>, [])
   \<and> \<not> py_isdigit ''abc''
   \<and> get_rule_input_from_form None ([9, 9, 9, 97, 98, 99, 10] @ [263, 263, 263, 50, 50, 10])
        (fresh ''/h'' Map.empty ()) =
       Returns (None, [263, 263, 263, 50, 50, 10],
         (fresh ''/h'' Map.empty ())\<lparr>status_message := ''Error: Port must be a number.''\<rparr>)"
proof -
  let ?s = "fresh ''/h'' Map.empty ()"
  have i: "initial_fields ?s None = Inr default_fields"
    by (simp add: initial_fields_def)
  have d: "\<not> py_isdigit (Port \<lparr>Action = 0, Direction = 0, Protocol = 0, Port = ''abc'',
      From_To_IP = ''any'', Service = [], Note = []\<rparr>)"
    by (simp add: not_isdigit_abc)
  show ?thesis
    using i default_form_abc not_isdigit_abc
      rejected_commit_closes_form[OF i default_form_abc d, of "[263, 263, 263, 50, 50, 10]"]
    by simp
qed

text \<open>The claim as it is worded fails when \<open>abc\<close> is typed as the port and committed:
  the keys that would correct the port to \<open>22\<close> and commit again are not read.\<close>

lemma form_abc_then_22:
  "get_rule_input_from_form None [9, 9, 9, 97, 98, 99, 10, 263, 263, 263, 50, 50, 10]
       (fresh ''/h'' Map.empty ()) =
     Returns (None, [263, 263, 263, 50, 50, 10],
       (fresh ''/h'' Map.empty ())\<lparr>status_message := ''Error: Port must be a number.''\<rparr>)"
proof -
  have i: "initial_fields (fresh ''/h'' Map.empty ()) None = Inr default_fields"
    by (simp add: initial_fields_def)
  have l: "form_loop default_fields 0 ([9, 9, 9, 97, 98, 99, 10] @ [263, 263, 263, 50, 50, 10])
      = Returns (Some \<lparr>Action = 0, Direction = 0, Protocol = 0, Port = ''abc'', From_To_IP = ''any'',
          Service = [], Note = []\<rparr>, [] @ [263, 263, 263, 50, 50, 10])"
    using default_form_abc by (rule form_loop_append)
  then have l': "form_loop default_fields 0 [9, 9, 9, 97, 98, 99, 10, 263, 263, 263, 50, 50, 10]
      = Returns (Some \<lparr>Action = 0, Direction = 0, Protocol = 0, Port = ''abc'', From_To_IP = ''any'',
          Service = [], Note = []\<rparr>, [263, 263, 263, 50, 50, 10])"
    by simp
  show ?thesis using form_result[OF i l'] by (simp add: not_isdigit_abc)
qed

theorem rejected_commit_form_not_open:
  "get_rule_input_from_form None [9, 9, 9, 97, 98, 99, 10, 263, 263, 263, 50, 50, 10]
       (fresh ''/h'' Map.empty ()) =
     Returns (None, [263, 263, 263, 50, 50, 10],
       (fresh ''/h'' Map.empty ())\<lparr>status_message := ''Error: Port must be a number.''\<rparr>)
   \<and> get_rule_input_from_form None [9, 9, 9, 97, 98, 99, 10, 263, 263, 263, 50, 50, 10]
       (fresh ''/h'' Map.empty ()) \<noteq>
     Returns (Some (''allow in to any port 22 proto tcp'', [], []), [], fresh ''/h'' Map.empty ())"
  by (simp add: form_abc_then_22)

subsection \<open>The lengths of the committed fields\<close>

lemma edit_field_lengths:
  "length (Port g) \<le> max 5 p \<and> length (From_To_IP g) \<le> max 15 a
     \<and> length (Service g) \<le> max 18 v \<and> length (Note g) \<le> max 43 n \<Longrightarrow>
   length (Port (edit_field g i key)) \<le> max 5 p
     \<and> length (From_To_IP (edit_field g i key)) \<le> max 15 a
     \<and> length (Service (edit_field g i key)) \<le> max 18 v
     \<and> length (Note (edit_field g i key)) \<le> max 43 n"
proof -
  have t: "length (type_key limit body key) \<le> max limit m" if "length body \<le> max limit m"
    for limit body m
    using that type_key_length[of limit body key] by (auto simp: max_def split: if_splits)
  assume "length (Port g) \<le> max 5 p \<and> length (From_To_IP g) \<le> max 15 a
     \<and> length (Service g) \<le> max 18 v \<and> length (Note g) \<le> max 43 n"
  then show ?thesis by (simp add: edit_field_def t)
qed

lemma prefill_ipv6_rule:
  "prefill [] [] (''[ 1]'', ''22/tcp ALLOW IN 2001:db8::8a2e:370:7334'') =
     Inr \<lparr>Action = 0, Direction = 0, Protocol = 0, Port = ''22'',
          From_To_IP = ''2001:db8::8a2e:370:7334'', Service = [], Note = []\<rparr>"
  by code_simp

text \<open>
  Claim C9, as the code has it: typing never makes a text field longer than its limit
  (5, 15, 18, 43), so a committed field is at most as long as the larger of its limit and
  its length when the form opened. A form opened for a new rule commits fields within the
  limits; a port that passes the validation is a string of digits. (A value that the edit
  form takes from the rule or from a stored annotation is kept whole, however long.)
\<close>

theorem committed_field_lengths:
  "initial_fields s existing_rule = Inr f0 \<Longrightarrow>
   form_loop f0 0 keys = Returns (Some f, rest) \<Longrightarrow>
     length (Port f) \<le> max 5 (length (Port f0))
     \<and> length (From_To_IP f) \<le> max 15 (length (From_To_IP f0))
     \<and> length (Service f) \<le> max 18 (length (Service f0))
     \<and> length (Note f) \<le> max 43 (length (Note f0))
     \<and> (existing_rule = None \<longrightarrow>
          length (Port f) \<le> 5 \<and> length (From_To_IP f) \<le> 15 \<and> length (Service f) \<le> 18
          \<and> length (Note f) \<le> 43)
     \<and> (\<forall>r. get_rule_input_from_form existing_rule keys s = Returns (Some r, rest, s)
            \<longrightarrow> py_isdigit (Port f))"
proof -
  assume i: "initial_fields s existing_rule = Inr f0"
    and l: "form_loop f0 0 keys = Returns (Some f, rest)"
  let ?P = "\<lambda>g. length (Port g) \<le> max 5 (length (Port f0))
     \<and> length (From_To_IP g) \<le> max 15 (length (From_To_IP f0))
     \<and> length (Service g) \<le> max 18 (length (Service f0))
     \<and> length (Note g) \<le> max 43 (length (Note f0))"
  have "?P f"
  proof (rule form_loop_invariant[where P = ?P, OF _ _ l])
    show "?P (edit_field g i key)" if "?P g" for g i key
      using that by (rule edit_field_lengths)
    show "?P f0" by simp
  qed
  moreover have "f0 = default_fields" if "existing_rule = None"
    using i that by (simp add: initial_fields_def)
  moreover have "py_isdigit (Port f)"
    if "get_rule_input_from_form existing_rule keys s = Returns (Some r, rest, s)" for r
    using form_result[OF i l] that by (simp split: if_splits)
  ultimately show ?thesis by (auto simp: default_fields_def)
qed

theorem committed_field_lengths_witness:
  "initial_fields (fresh ''/h'' Map.empty ()) None = Inr default_fields
   \<and> form_loop default_fields 0 [9, 9, 9, 50, 50, 10] =
     Returns (Some \<lparr>Action = 0, Direction = 0, Protocol = 0, Port = ''22'', From_To_IP = ''any'',
          Service = [], Note = []\<rparr>, [])
   \<and> length ''22'' \<le> (5::nat) \<and> length ''any'' \<le> (15::nat)
   \<and> py_isdigit ''22''"
proof -
  have i: "initial_fields (fresh ''/h'' Map.empty ()) None = Inr default_fields"
    by (simp add: initial_fields_def)
  show ?thesis
    using i default_form_22 isdigit_22 committed_field_lengths[OF i default_form_22]
    by simp
qed

text \<open>The claim as it is worded fails when a rule with an IPv6 source is edited and
  committed at once: the address field holds 23 characters.\<close>

theorem prefilled_address_exceeds_limit:
  "\<exists>f0 f. initial_fields ((fresh ''/h'' Map.empty ())\<lparr>rules := [(''[ 1]'', ''22/tcp ALLOW IN 2001:db8::8a2e:370:7334'')]\<rparr>)
        (Some (''[ 1]'', ''22/tcp ALLOW IN 2001:db8::8a2e:370:7334'')) = Inr f0
      \<and> form_loop f0 0 [10] = Returns (Some f, [])
      \<and> py_isdigit (Port f)
      \<and> From_To_IP f = ''2001:db8::8a2e:370:7334''
      \<and> 15 < length (From_To_IP f)"
proof -
  let ?f = "\<lparr>Action = 0, Direction = 0, Protocol = 0, Port = ''22'',
          From_To_IP = ''2001:db8::8a2e:370:7334'', Service = [], Note = []\<rparr>"
  have "initial_fields ((fresh ''/h'' Map.empty ())\<lparr>rules := [(''[ 1]'', ''22/tcp ALLOW IN 2001:db8::8a2e:370:7334'')]\<rparr>)
        (Some (''[ 1]'', ''22/tcp ALLOW IN 2001:db8::8a2e:370:7334'')) = Inr ?f"
    by (simp add: initial_fields_def fresh_def prefill_ipv6_rule)
  moreover have "form_loop ?f 0 [10] = Returns (Some ?f, [])" by simp
  moreover have "py_isdigit (Port ?f)" by (simp add: isdigit_22)
  moreover have "15 < length (From_To_IP ?f)" by simp
  ultimately show ?thesis by (intro exI[of _ ?f]) simp
qed

subsection \<open>The protocol field of the edit form\<close>

lemma prefill_Protocol: "prefill sv nt r = Inr f \<Longrightarrow> Protocol f = 0"
  by (auto simp: prefill_def Let_def default_fields_def
      split: option.splits list.splits if_splits sum.splits prod.splits)

lemma prefill_udp_rule:
  "prefill [] [] (''[ 1]'', ''53/udp ALLOW IN Anywhere'') =
     Inr \<lparr>Action = 0, Direction = 0, Protocol = 0, Port = ''53'', From_To_IP = ''any'',
          Service = [], Note = []\<rparr>"
  by code_simp

text \<open>
  Claim C6, as the code has it: whatever the description of the rule being edited says,
  the form starts with the protocol dropdown on its first option, which is \<open>tcp\<close>. (The
  claim names \<open>any\<close>; the protocol is indeed never read from the text.)
\<close>

theorem protocol_seeded_tcp:
  "initial_fields s (Some existing_rule) = Inr f \<Longrightarrow> protocols ! Protocol f = ''tcp''"
  by (simp add: initial_fields_def protocols_def prefill_Protocol)

theorem protocol_seeded_tcp_witness:
  "initial_fields (fresh ''/h'' Map.empty ()) (Some (''[ 1]'', ''53/udp ALLOW IN Anywhere'')) =
     Inr \<lparr>Action = 0, Direction = 0, Protocol = 0, Port = ''53'', From_To_IP = ''any'',
          Service = [], Note = []\<rparr>
   \<and> protocols ! Protocol \<lparr>Action = 0, Direction = 0, Protocol = 0, Port = ''53'',
          From_To_IP = ''any'', Service = [], Note = []\<rparr> = ''tcp''"
proof -
  have h: "initial_fields (fresh ''/h'' Map.empty ()) (Some (''[ 1]'', ''53/udp ALLOW IN Anywhere'')) =
     Inr \<lparr>Action = 0, Direction = 0, Protocol = 0, Port = ''53'', From_To_IP = ''any'',
          Service = [], Note = []\<rparr>"
    by (simp add: initial_fields_def fresh_def prefill_udp_rule)
  show ?thesis using h protocol_seeded_tcp[OF h] by simp
qed

text \<open>The claim as it is worded fails on a rule for UDP port 53: the form does not start
  on \<open>any\<close>.\<close>

theorem protocol_not_seeded_any:
  "\<not> (\<forall>sv nt r f. prefill sv nt r = Inr f \<longrightarrow> protocols ! Protocol f = ''any'')"
proof
  assume a: "\<forall>sv nt r f. prefill sv nt r = Inr f \<longrightarrow> protocols ! Protocol f = ''any''"
  have "protocols ! 0 = ''any''"
    using a prefill_udp_rule by fastforce
  then show False by (simp add: protocols_def)
qed

subsection \<open>Loading the annotation files\<close>

lemma files_differ: "notes_file s \<noteq> services_file s"
  by (simp add: notes_file_def services_file_def)


lemma load_file_ok:
  assumes "io_error h (OpenAppend p) = None" "io_error h (OpenRead p) = None"
  shows "load_file h p store s =
     (None, store (load_dict (file_text s p)) (store [] (ensure_file p s)))"
proof (cases "files s p")
  case None
  with assms show ?thesis by (simp add: load_file_def file_text_def ensure_file_def)
next
  case (Some c)
  with assms show ?thesis by (simp add: load_file_def file_text_def ensure_file_def)
qed

lemma ensure_file_fields:
  "notes_dir (ensure_file p s) = notes_dir s" "notes (ensure_file p s) = notes s"
  "services (ensure_file p s) = services s"
  "files (ensure_file p s) q = (if q = p then Some (file_text s p) else files s q)"
  "file_text (ensure_file p s) q = file_text s q"
  by (auto simp: ensure_file_def file_text_def)

lemma set_notes_twice: "set_notes d (set_notes e s) = s\<lparr>notes := d\<rparr>"
  by (simp add: set_notes_def)

lemma set_services_twice: "set_services d (set_services e s) = s\<lparr>services := d\<rparr>"
  by (simp add: set_services_def)

lemma load_explicit:
  assumes "loads_ok h s"
  shows "setup_and_load_files h s =
     (ensure_file (services_file s) (ensure_file (notes_file s) s))
       \<lparr>notes := load_dict (file_text s (notes_file s)),
        services := load_dict (file_text s (services_file s))\<rparr>"
proof -
  let ?s1 = "(ensure_file (notes_file s) s)\<lparr>notes := load_dict (file_text s (notes_file s))\<rparr>"
  have a: "io_error h (MakeDirs (notes_dir s)) = None"
    and b: "io_error h (OpenAppend (notes_file s)) = None" "io_error h (OpenRead (notes_file s)) = None"
    and c: "io_error h (OpenAppend (services_file s)) = None"
      "io_error h (OpenRead (services_file s)) = None"
    using assms by (simp_all add: loads_ok_def)
  have 1: "load_file h (notes_file s) set_notes s = (None, ?s1)"
    by (simp add: load_file_ok[OF b] set_notes_twice)
  have sf: "services_file ?s1 = services_file s"
    by (simp add: services_file_def ensure_file_fields)
  have ft: "file_text ?s1 (services_file s) = file_text s (services_file s)"
    by (simp add: file_text_def ensure_file_def)
  have e: "ensure_file (services_file s) ?s1 =
      (ensure_file (services_file s) (ensure_file (notes_file s) s))
        \<lparr>notes := load_dict (file_text s (notes_file s))\<rparr>"
    by (simp add: ensure_file_def)
  have 2: "load_file h (services_file s) set_services ?s1 =
      (None, (ensure_file (services_file s) (ensure_file (notes_file s) s))
       \<lparr>notes := load_dict (file_text s (notes_file s)),
        services := load_dict (file_text s (services_file s))\<rparr>)"
    by (simp only: load_file_ok[OF c] set_services_twice ft e)
  show ?thesis
    unfolding setup_and_load_files_def by (simp add: a 1 sf 2 del: ensure_file_fields)
qed


lemma ensure_file_idem: "ensure_file p (ensure_file p s) = ensure_file p s"
  by (simp add: ensure_file_def)

lemma ensure_file_commute:
  "ensure_file p (ensure_file q s) = ensure_file q (ensure_file p s)"
proof (cases "p = q")
  case True
  then show ?thesis by simp
next
  case False
  have "(files s)(p \<mapsto> [], q \<mapsto> []) = (files s)(q \<mapsto> [], p \<mapsto> [])"
    using False by (rule fun_upd_twist)
  with False show ?thesis by (cases "files s p"; cases "files s q") (simp_all add: ensure_file_def)
qed

lemma ensure_file_stores:
  "ensure_file p (s\<lparr>notes := n, services := v\<rparr>) = (ensure_file p s)\<lparr>notes := n, services := v\<rparr>"
  by (simp add: ensure_file_def)

lemma ensure_both_idem:
  "ensure_file q (ensure_file p (ensure_file q (ensure_file p s))) = ensure_file q (ensure_file p s)"
proof -
  have "ensure_file p (ensure_file q (ensure_file p s)) = ensure_file q (ensure_file p s)"
    by (simp only: ensure_file_commute[of p q] ensure_file_idem)
  then show ?thesis by (simp only: ensure_file_idem)
qed

lemma file_text_stores: "file_text (s\<lparr>notes := n, services := v\<rparr>) p = file_text s p"
  by (simp add: file_text_def)

lemma paths_stores:
  "notes_file (s\<lparr>notes := n, services := v\<rparr>) = notes_file s"
  "services_file (s\<lparr>notes := n, services := v\<rparr>) = services_file s"
  "notes_dir (s\<lparr>notes := n, services := v\<rparr>) = notes_dir s"
  by (simp_all add: notes_file_def services_file_def)

lemma paths_ensure:
  "notes_file (ensure_file p s) = notes_file s"
  "services_file (ensure_file p s) = services_file s"
  by (simp_all add: notes_file_def services_file_def ensure_file_fields)

lemma loads_ok_cong:
  "notes_dir t = notes_dir s \<Longrightarrow> loads_ok h t = loads_ok h s"
  by (simp add: loads_ok_def notes_file_def services_file_def)

lemma stores_twice:
  "s\<lparr>notes := n, services := v\<rparr>\<lparr>notes := a, services := b\<rparr> = s\<lparr>notes := a, services := b\<rparr>"
  by simp


text \<open>
  Claim C10: when the directory and the two files can be opened, a load leaves in each
  store exactly what its file holds (nothing for a file that did not exist), whatever
  the stores held before; so the stores in memory do not matter to a load, and a second
  load changes nothing.
\<close>

theorem load_replaces_stores:
  "loads_ok h s \<Longrightarrow>
     notes (setup_and_load_files h s) = load_dict (file_text s (notes_file s))
     \<and> services (setup_and_load_files h s) = load_dict (file_text s (services_file s))
     \<and> setup_and_load_files h (s\<lparr>notes := n, services := v\<rparr>) = setup_and_load_files h s
     \<and> setup_and_load_files h (setup_and_load_files h s) = setup_and_load_files h s"
proof -
  assume ok: "loads_ok h s"
  define e where "e = ensure_file (services_file s) (ensure_file (notes_file s) s)"
  define a where "a = load_dict (file_text s (notes_file s))"
  define b where "b = load_dict (file_text s (services_file s))"
  have l: "setup_and_load_files h s = e\<lparr>notes := a, services := b\<rparr>"
    using load_explicit[OF ok] by (simp only: e_def a_def b_def)
  have 1: "notes (setup_and_load_files h s) = a" by (simp add: l)
  have 2: "services (setup_and_load_files h s) = b" by (simp add: l)
  have okt: "loads_ok h (s\<lparr>notes := n, services := v\<rparr>)"
    using ok by (simp only: loads_ok_cong[OF paths_stores(3)])
  have 3: "setup_and_load_files h (s\<lparr>notes := n, services := v\<rparr>) = setup_and_load_files h s"
    by (simp only: load_explicit[OF okt] paths_stores file_text_stores ensure_file_stores
        stores_twice l e_def a_def b_def)
  have nd: "notes_dir (e\<lparr>notes := a, services := b\<rparr>) = notes_dir s"
    by (simp add: e_def ensure_file_fields)
  have okl: "loads_ok h (e\<lparr>notes := a, services := b\<rparr>)"
    using ok by (simp only: loads_ok_cong[OF nd])
  have pe: "notes_file e = notes_file s" "services_file e = services_file s"
    "file_text e p = file_text s p" for p
    by (simp_all add: e_def paths_ensure ensure_file_fields)
  have ee: "ensure_file (services_file s) (ensure_file (notes_file s) e) = e"
    unfolding e_def by (rule ensure_both_idem)
  have 4: "setup_and_load_files h (e\<lparr>notes := a, services := b\<rparr>) = e\<lparr>notes := a, services := b\<rparr>"
    by (simp only: load_explicit[OF okl] paths_stores file_text_stores ensure_file_stores
        stores_twice pe ee a_def[symmetric] b_def[symmetric])
  have 5: "setup_and_load_files h (setup_and_load_files h s) = setup_and_load_files h s"
    by (simp only: l 4)
  show ?thesis
    by (intro conjI) (rule 1[unfolded a_def], rule 2[unfolded b_def], rule 3, rule 5)
qed

theorem load_replaces_stores_witness:
  "loads_ok accepting_host ((fresh ''/h'' [''/h/notes.txt'' \<mapsto> ''2:web'' @ [CHR 0x0A]] ())\<lparr>notes := [(''7'', ''old'')]\<rparr>)
   \<and> notes (setup_and_load_files accepting_host
         ((fresh ''/h'' [''/h/notes.txt'' \<mapsto> ''2:web'' @ [CHR 0x0A]] ())\<lparr>notes := [(''7'', ''old'')]\<rparr>))
       = [(''2'', ''web'')]
   \<and> services (setup_and_load_files accepting_host
         ((fresh ''/h'' [''/h/notes.txt'' \<mapsto> ''2:web'' @ [CHR 0x0A]] ())\<lparr>notes := [(''7'', ''old'')]\<rparr>))
       = []"
proof -
  let ?s = "(fresh ''/h'' [''/h/notes.txt'' \<mapsto> ''2:web'' @ [CHR 0x0A]] ())\<lparr>notes := [(''7'', ''old'')]\<rparr>"
  have ok: "loads_ok accepting_host ?s"
    by (simp add: loads_ok_def accepting_host_def)
  have n: "load_dict (file_text ?s (notes_file ?s)) = [(''2'', ''web'')]"
    by (simp add: file_text_def notes_file_def fresh_def) code_simp
  have v: "load_dict (file_text ?s (services_file ?s)) = []"
    by (simp add: file_text_def services_file_def fresh_def) code_simp
  show ?thesis
    using ok load_replaces_stores[OF ok, of "[]" "[]"] n v by simp
qed


subsection \<open>Saving a store and loading it again\<close>

lemma universal_newlines_id: "CHR 0x0D \<notin> set s \<Longrightarrow> universal_newlines s = s"
  by (induction s rule: universal_newlines.induct) auto

lemma readlines_line:
  "CHR 0x0A \<notin> set l \<Longrightarrow> readlines (l @ CHR 0x0A # r) = (l @ [CHR 0x0A]) # readlines r"
  by (induction l) auto

lemma readlines_concat:
  "list_all (\<lambda>l. CHR 0x0A \<notin> set l) ls \<Longrightarrow>
     readlines (concat (map (\<lambda>l. l @ [CHR 0x0A]) ls)) = map (\<lambda>l. l @ [CHR 0x0A]) ls"
  by (induction ls) (auto simp: readlines_line)

lemma split_first_colon:
  "CHR '':'' \<notin> set k \<Longrightarrow> split_first '':'' (k @ CHR '':'' # r) = Some (k, r)"
  by (induction k) auto

lemma strip_where_snoc:
  assumes "p c"
  shows "strip_where p (v @ [c]) = strip_where p v"
proof (cases "\<forall>x \<in> set v. p x")
  case True
  have a: "dropWhile p v = []" using True by (simp add: dropWhile_eq_Nil_conv)
  have "dropWhile p (v @ [c]) = dropWhile p [c]" using True by (simp add: dropWhile_append)
  then have b: "dropWhile p (v @ [c]) = []" using assms by simp
  show ?thesis unfolding strip_where_def a b by simp
next
  case False
  then have "dropWhile p (v @ [c]) = dropWhile p v @ [c]" by (auto simp: dropWhile_append1)
  then show ?thesis using assms by (simp add: strip_where_def)
qed

lemma linefeed_space: "py_isspace (CHR 0x0A)"
  by (simp add: py_isspace_def code_def)

lemma parse_line_store_line:
  assumes "py_isdigit k"
  shows "parse_line acc (store_line (k, v)) = setitem acc k (py_strip v)"
proof -
  have "CHR '':'' \<notin> set k"
    using assms by (auto simp: py_isdigit_def list_all_iff isdigit_char_def is_superscript_def
        is_digit_def code_def)
  then have "split_first '':'' (store_line (k, v)) = Some (k, v @ [CHR 0x0A])"
    using split_first_colon[of k "v @ [CHR 0x0A]"] by (simp add: store_line_def)
  moreover have "py_strip (v @ [CHR 0x0A]) = py_strip v"
    unfolding py_strip_def by (rule strip_where_snoc) (rule linefeed_space)
  ultimately show ?thesis using assms by (simp add: parse_line_def py_strip_isdigit)
qed

lemma foldl_parse_lines:
  "list_all (\<lambda>item. py_isdigit (fst item)) items \<Longrightarrow>
     foldl parse_line acc (map store_line items) =
     foldl (\<lambda>a item. setitem a (fst item) (py_strip (snd item))) acc items"
proof (induction items arbitrary: acc)
  case Nil
  then show ?case by simp
next
  case (Cons item items)
  obtain k v where kv: "item = (k, v)" by (cases item)
  with Cons show ?case by (simp add: parse_line_store_line)
qed

lemma map_of_foldl_setitem:
  "distinct (map fst items) \<Longrightarrow>
     map_of (foldl (\<lambda>a item. setitem a (fst item) (g (snd item))) acc items) k =
     (case map_of items k of Some v \<Rightarrow> Some (g v) | None \<Rightarrow> map_of acc k)"
proof (induction items arbitrary: acc)
  case Nil
  then show ?case by simp
next
  case (Cons item items)
  obtain k' v' where kv: "item = (k', v')" by (cases item)
  have n: "map_of items k' = None" using Cons.prems kv by (simp add: map_of_eq_None_iff)
  show ?case using Cons kv n by (simp add: setitem_def update_conv' split: option.splits)
qed

lemma map_of_valid_items:
  "map_of (valid_items d) k = (if py_isdigit k then map_of d k else None)"
  unfolding valid_items_def by (induction d) auto

lemma valid_items_distinct: "is_dict d \<Longrightarrow> distinct (map fst (valid_items d))"
  by (simp add: is_dict_def valid_items_def distinct_map_filter)

lemma digits_no_breaks:
  "py_isdigit k \<Longrightarrow> CHR 0x0A \<notin> set k \<and> CHR 0x0D \<notin> set k"
  by (auto simp: py_isdigit_def list_all_iff isdigit_char_def is_superscript_def is_digit_def
      code_def)

lemma store_line_fun: "store_line = (\<lambda>item. (fst item @ '':'' @ snd item) @ [CHR 0x0A])"
  by (simp add: fun_eq_iff store_line_def)

lemma load_store_lines:
  assumes dg: "list_all (\<lambda>item. py_isdigit (fst item)) items"
    and sl: "list_all (\<lambda>item. single_line (snd item)) items"
  shows "load_dict (concat (map store_line items)) =
     foldl (\<lambda>a item. setitem a (fst item) (py_strip (snd item))) [] items"
proof -
  let ?body = "concat (map store_line items)"
  have body: "CHR 0x0A \<notin> set (fst item @ '':'' @ snd item) \<and> CHR 0x0D \<notin> set (fst item @ '':'' @ snd item)"
    if "item \<in> set items" for item
    using that dg sl digits_no_breaks[of "fst item"] by (auto simp: list_all_iff single_line_def)
  have t: "?body = concat (map (\<lambda>l. l @ [CHR 0x0A]) (map (\<lambda>item. fst item @ '':'' @ snd item) items))"
    by (simp add: store_line_fun comp_def)
  have nocr: "CHR 0x0D \<notin> set ?body"
    unfolding t using body by auto
  have "readlines ?body = map (\<lambda>l. l @ [CHR 0x0A]) (map (\<lambda>item. fst item @ '':'' @ snd item) items)"
    unfolding t by (rule readlines_concat) (use body in \<open>auto simp: list_all_iff\<close>)
  then have "readlines ?body = map store_line items"
    by (simp add: store_line_fun comp_def)
  then show ?thesis
    using nocr dg by (simp add: load_dict_def universal_newlines_id foldl_parse_lines)
qed

lemma keyed_items: "keyed max_digits xs = Some ks \<Longrightarrow> map snd ks = xs"
  by (induction xs arbitrary: ks) (auto split: option.splits)

lemma keyed_Some:
  "list_all (\<lambda>item. py_int max_digits (fst item) \<noteq> None) xs \<Longrightarrow> \<exists>ks. keyed max_digits xs = Some ks"
  by (induction xs) auto

lemma keyed_None:
  "\<not> list_all (\<lambda>item. py_int max_digits (fst item) \<noteq> None) xs \<Longrightarrow> keyed max_digits xs = None"
  by (induction xs) (auto split: option.splits)

lemma sortable_valid_items:
  "sortable max_digits d =
     list_all (\<lambda>item. py_int max_digits (fst item) \<noteq> None) (valid_items d)"
  by (auto simp: sortable_def valid_items_def list_all_iff)

text \<open>What a save writes: the lines of the valid items in some order, when every all-digit
  key is one \<^verbatim>\<open>int\<close> accepts; nothing otherwise.\<close>

lemma store_text_Some:
  assumes "sortable max_digits d"
  shows "\<exists>items. store_text max_digits d = Some (concat (map store_line items))
     \<and> set items = set (valid_items d) \<and> (is_dict d \<longrightarrow> distinct (map fst items))"
proof -
  from assms obtain ks where ks: "keyed max_digits (valid_items d) = Some ks"
    using keyed_Some sortable_valid_items by blast
  let ?items = "map snd (sort_key fst ks)"
  have k: "map snd ks = valid_items d" using ks by (rule keyed_items)
  have 1: "store_text max_digits d = Some (concat (map store_line ?items))"
    by (simp add: store_text_def ks comp_def)
  have "set ?items = set (map snd ks)" by simp
  then have 2: "set ?items = set (valid_items d)" unfolding k .
  have "distinct (map (\<lambda>ki. fst (snd ki)) (sort_key fst ks)) = distinct (map (\<lambda>ki. fst (snd ki)) ks)"
    by (simp add: distinct_map)
  then have "distinct (map fst ?items) = distinct (map fst (map snd ks))"
    by (simp add: comp_def)
  then have 3: "distinct (map fst ?items) = distinct (map fst (valid_items d))" unfolding k .
  show ?thesis using 1 2 3 valid_items_distinct[of d] by blast
qed

lemma store_text_None: "\<not> sortable max_digits d \<Longrightarrow> store_text max_digits d = None"
  by (simp add: store_text_def sortable_valid_items keyed_None)

lemma save_load_lookup:
  assumes "is_dict d" "list_all (\<lambda>item. single_line (snd item)) d" "sortable max_digits d"
  shows "\<exists>body. store_text max_digits d = Some body \<and>
     map_of (load_dict body) k =
       (if py_isdigit k then map_option py_strip (map_of d k) else None)"
proof -
  from store_text_Some[OF assms(3)] assms(1) obtain items where
    b: "store_text max_digits d = Some (concat (map store_line items))"
    and s: "set items = set (valid_items d)" and di: "distinct (map fst items)"
    by blast
  have dv: "distinct (map fst (valid_items d))" using assms(1) by (rule valid_items_distinct)
  have dg: "list_all (\<lambda>item. py_isdigit (fst item)) items"
    using s by (auto simp: valid_items_def list_all_iff)
  have sl: "list_all (\<lambda>item. single_line (snd item)) items"
    using s assms(2) by (auto simp: valid_items_def list_all_iff)
  have m: "map_of items = map_of (valid_items d)"
    using map_of_inject_set[OF di dv] s by blast
  have "map_of (load_dict (concat (map store_line items))) k =
      (case map_of items k of Some v \<Rightarrow> Some (py_strip v) | None \<Rightarrow> None)"
    unfolding load_store_lines[OF dg sl]
    using map_of_foldl_setitem[OF di, where g = py_strip and acc = "[]" and k = k]
    by (simp split: option.splits)
  then have "map_of (load_dict (concat (map store_line items))) k =
      (if py_isdigit k then map_option py_strip (map_of d k) else None)"
    by (simp add: m map_of_valid_items split: option.splits)
  with b show ?thesis by blast
qed

lemma load_stores_ok:
  assumes "loads_ok h s"
  shows "notes (setup_and_load_files h s) = load_dict (file_text s (notes_file s))"
    and "services (setup_and_load_files h s) = load_dict (file_text s (services_file s))"
  by (simp_all add: load_explicit[OF assms])

lemma save_ok:
  "io_error h (OpenWrite p) = None \<Longrightarrow> store_text (int_max_str_digits h) d = Some body \<Longrightarrow>
     save_notes_or_services h p d s = Returns (s\<lparr>files := (files s)(p \<mapsto> body)\<rparr>)"
  by (simp add: save_notes_or_services_def)

lemma save_refused_key:
  "io_error h (OpenWrite p) = None \<Longrightarrow> \<not> sortable (int_max_str_digits h) d \<Longrightarrow>
     save_notes_or_services h p d s = Raises ValueError (left_by (s\<lparr>files := (files s)(p \<mapsto> [])\<rparr>))"
  by (simp add: save_notes_or_services_def store_text_None)

lemma save_returns:
  "sortable (int_max_str_digits h) d \<Longrightarrow> \<exists>s'. save_notes_or_services h p d s = Returns s'"
  using store_text_Some[of "int_max_str_digits h" d]
  by (auto simp: save_notes_or_services_def split: option.splits)

lemma loads_ok_files: "loads_ok h (s\<lparr>files := fs\<rparr>) = loads_ok h s"
  by (simp add: loads_ok_def notes_file_def services_file_def)

lemma saved_file_text:
  "file_text (s\<lparr>files := (files s)(p \<mapsto> c)\<rparr>) p = c"
  by (simp add: file_text_def)

lemma paths_files:
  "notes_file (s\<lparr>files := fs\<rparr>) = notes_file s" "services_file (s\<lparr>files := fs\<rparr>) = services_file s"
  by (simp_all add: notes_file_def services_file_def)

text \<open>
  Claim C2, as the code has it: for a store whose texts hold no line break and whose
  all-digit indices are all accepted by \<^verbatim>\<open>int\<close>, when the file can be written and
  read, the save returns and loading after it gives, for every index that is a string of
  digits, the text of the store with the whitespace at its two ends removed, and no
  entry for any other index. (The claim has the texts come back unchanged.)
\<close>

theorem save_then_load:
  "is_dict d \<Longrightarrow> list_all (\<lambda>item. single_line (snd item)) d \<Longrightarrow>
   sortable (int_max_str_digits h) d \<Longrightarrow> loads_ok h s \<Longrightarrow>
   io_error h (OpenWrite (notes_file s)) = None \<Longrightarrow>
   io_error h (OpenWrite (services_file s)) = None \<Longrightarrow>
     (\<exists>s1. save_notes_or_services h (notes_file s) d s = Returns s1
        \<and> map_of (notes (setup_and_load_files h s1)) k
          = (if py_isdigit k then map_option py_strip (map_of d k) else None))
     \<and> (\<exists>s2. save_notes_or_services h (services_file s) d s = Returns s2
        \<and> map_of (services (setup_and_load_files h s2)) k
          = (if py_isdigit k then map_option py_strip (map_of d k) else None))"
proof -
  assume d: "is_dict d" "list_all (\<lambda>item. single_line (snd item)) d"
      "sortable (int_max_str_digits h) d"
    and ok: "loads_ok h s"
    and wn: "io_error h (OpenWrite (notes_file s)) = None"
    and ws: "io_error h (OpenWrite (services_file s)) = None"
  from save_load_lookup[OF d, of k] obtain body where
    b: "store_text (int_max_str_digits h) d = Some body"
    and l: "map_of (load_dict body) k =
       (if py_isdigit k then map_option py_strip (map_of d k) else None)"
    by blast
  let ?s1 = "s\<lparr>files := (files s)(notes_file s \<mapsto> body)\<rparr>"
  let ?s2 = "s\<lparr>files := (files s)(services_file s \<mapsto> body)\<rparr>"
  have n: "notes (setup_and_load_files h ?s1) = load_dict body"
    using load_stores_ok(1)[of h ?s1] ok
    by (simp only: loads_ok_files paths_files saved_file_text)
  have v: "services (setup_and_load_files h ?s2) = load_dict body"
    using load_stores_ok(2)[of h ?s2] ok
    by (simp only: loads_ok_files paths_files saved_file_text)
  have 1: "save_notes_or_services h (notes_file s) d s = Returns ?s1"
    using wn b by (rule save_ok)
  have 2: "save_notes_or_services h (services_file s) d s = Returns ?s2"
    using ws b by (rule save_ok)
  show ?thesis
  proof (intro conjI exI)
    show "save_notes_or_services h (notes_file s) d s = Returns ?s1" by (rule 1)
    show "map_of (notes (setup_and_load_files h ?s1)) k
          = (if py_isdigit k then map_option py_strip (map_of d k) else None)"
      unfolding n by (rule l)
    show "save_notes_or_services h (services_file s) d s = Returns ?s2" by (rule 2)
    show "map_of (services (setup_and_load_files h ?s2)) k
          = (if py_isdigit k then map_option py_strip (map_of d k) else None)"
      unfolding v by (rule l)
  qed
qed

lemma accepting_loads_ok: "loads_ok accepting_host s"
  by (simp add: loads_ok_def accepting_host_def)

lemma accepting_write_ok: "io_error accepting_host op = None"
  by (simp add: accepting_host_def)

lemma accepting_limit: "int_max_str_digits accepting_host = 4300"
  by (simp add: accepting_host_def)

lemma strip_web: "py_strip ''web'' = ''web''"
  by code_simp

lemma sortable_web: "sortable 4300 [(''2'', ''web''), (''x'', ''junk'')]"
  by code_simp

lemma store_text_web:
  "store_text 4300 [(''2'', ''web''), (''x'', ''junk'')] = Some (''2:web'' @ [CHR 0x0A])"
  by code_simp

theorem save_then_load_witness:
  "is_dict [(''2'', ''web''), (''x'', ''junk'')]
   \<and> list_all (\<lambda>item. single_line (snd item)) [(''2'', ''web''), (''x'', ''junk'')]
   \<and> sortable (int_max_str_digits accepting_host) [(''2'', ''web''), (''x'', ''junk'')]
   \<and> loads_ok accepting_host (fresh ''/h'' Map.empty ())
   \<and> io_error accepting_host (OpenWrite (notes_file (fresh ''/h'' Map.empty ()))) = None
   \<and> io_error accepting_host (OpenWrite (services_file (fresh ''/h'' Map.empty ()))) = None
   \<and> (\<exists>s1. save_notes_or_services accepting_host (notes_file (fresh ''/h'' Map.empty ()))
              [(''2'', ''web''), (''x'', ''junk'')] (fresh ''/h'' Map.empty ()) = Returns s1
        \<and> files s1 ''/h/notes.txt'' = Some (''2:web'' @ [CHR 0x0A])
        \<and> map_of (notes (setup_and_load_files accepting_host s1)) ''2'' = Some ''web''
        \<and> map_of (notes (setup_and_load_files accepting_host s1)) ''x'' = None)"
proof -
  let ?d = "[(''2'', ''web''), (''x'', ''junk'')]"
  let ?s = "fresh ''/h'' Map.empty () :: unit manager"
  have 1: "is_dict ?d" by (simp add: is_dict_def)
  have 2: "list_all (\<lambda>item. single_line (snd item)) ?d" by (simp add: single_line_def)
  have 3: "sortable (int_max_str_digits accepting_host) ?d"
    unfolding accepting_limit by (rule sortable_web)
  have 4: "loads_ok accepting_host ?s" by (rule accepting_loads_ok)
  have 5: "io_error accepting_host (OpenWrite (notes_file ?s)) = None" by (rule accepting_write_ok)
  have 6: "io_error accepting_host (OpenWrite (services_file ?s)) = None"
    by (rule accepting_write_ok)
  have 7: "py_isdigit ''2''" by code_simp
  have 8: "\<not> py_isdigit ''x''" by code_simp
  have sv: "save_notes_or_services accepting_host (notes_file ?s) ?d ?s
      = Returns (?s\<lparr>files := (files ?s)(notes_file ?s \<mapsto> ''2:web'' @ [CHR 0x0A])\<rparr>)"
    using accepting_write_ok by (rule save_ok) (simp add: accepting_limit store_text_web)
  from save_then_load[OF 1 2 3 4 5 6, of "''2''"] 7 strip_web
  have a: "map_of (notes (setup_and_load_files accepting_host
      (?s\<lparr>files := (files ?s)(notes_file ?s \<mapsto> ''2:web'' @ [CHR 0x0A])\<rparr>))) ''2'' = Some ''web''"
    unfolding sv by simp
  from save_then_load[OF 1 2 3 4 5 6, of "''x''"] 8
  have b: "map_of (notes (setup_and_load_files accepting_host
      (?s\<lparr>files := (files ?s)(notes_file ?s \<mapsto> ''2:web'' @ [CHR 0x0A])\<rparr>))) ''x'' = None"
    unfolding sv by simp
  have f: "files (?s\<lparr>files := (files ?s)(notes_file ?s \<mapsto> ''2:web'' @ [CHR 0x0A])\<rparr>) ''/h/notes.txt''
      = Some (''2:web'' @ [CHR 0x0A])"
    by (simp add: notes_file_def fresh_def)
  show ?thesis using 1 2 3 4 5 6 sv a b f by blast
qed

text \<open>The claim as it is worded fails for a note that starts with a blank, which the
  form accepts: the note loaded is another text.\<close>

lemma store_text_blank: "store_text 4300 [(''3'', '' x'')] = Some (''3: x'' @ [CHR 0x0A])"
  by code_simp

lemma load_store_blank: "load_dict (''3: x'' @ [CHR 0x0A]) = [(''3'', ''x'')]"
  by code_simp

theorem save_load_strips_text:
  "(\<exists>s1. save_notes_or_services accepting_host
         (notes_file ((fresh ''/h'' Map.empty ())\<lparr>notes := [(''3'', '' x'')]\<rparr>))
         [(''3'', '' x'')] ((fresh ''/h'' Map.empty ())\<lparr>notes := [(''3'', '' x'')]\<rparr>) = Returns s1
      \<and> map_of (notes (setup_and_load_files accepting_host s1)) ''3'' = Some ''x'')
   \<and> map_of (notes ((fresh ''/h'' Map.empty ())\<lparr>notes := [(''3'', '' x'')]\<rparr> :: unit manager)) ''3''
     = Some '' x''"
proof -
  let ?s = "(fresh ''/h'' Map.empty ())\<lparr>notes := [(''3'', '' x'')]\<rparr> :: unit manager"
  let ?s1 = "?s\<lparr>files := (files ?s)(notes_file ?s \<mapsto> ''3: x'' @ [CHR 0x0A])\<rparr>"
  have sv: "save_notes_or_services accepting_host (notes_file ?s) [(''3'', '' x'')] ?s = Returns ?s1"
    using accepting_write_ok by (rule save_ok) (simp add: accepting_limit store_text_blank)
  have n: "notes (setup_and_load_files accepting_host ?s1) = load_dict (''3: x'' @ [CHR 0x0A])"
    using load_stores_ok(1)[OF accepting_loads_ok, of ?s1]
    by (simp only: paths_files saved_file_text)
  have "map_of (notes (setup_and_load_files accepting_host ?s1)) ''3'' = Some ''x''"
    unfolding n load_store_blank by simp
  with sv show ?thesis by auto
qed

text \<open>A store loaded from a file can hold an index that passes \<^verbatim>\<open>isdigit\<close> and that
  \<^verbatim>\<open>int\<close> refuses, such as the superscript two: the load keeps it, and the next save
  raises a \<^verbatim>\<open>ValueError\<close> and leaves the file empty.\<close>

lemma load_superscript_key: "load_dict ([CHR 0xB2] @ '':x'' @ [CHR 0x0A]) = [([CHR 0xB2], ''x'')]"
  by code_simp

lemma superscript_not_sortable: "\<not> sortable 4300 [([CHR 0xB2], ''x'')]"
  by code_simp

lemma save_superscript_key:
  "save_notes_or_services accepting_host p [([CHR 0xB2], ''x'')] s
     = Raises ValueError (left_by (s\<lparr>files := (files s)(p \<mapsto> [])\<rparr>))"
  using accepting_write_ok by (rule save_refused_key) (simp add: accepting_limit superscript_not_sortable)

subsection \<open>Renumbering the stores after a deletion\<close>

lemma canonical_decimal: "canonical k \<Longrightarrow> is_decimal k"
  using is_decimal_int_text[of "int (dec_value k)"] by (simp add: canonical_def)

lemma canonical_length: "canonical k \<Longrightarrow> length (nat_digits (dec_value k)) = length k"
  by (simp add: canonical_def int_text_def)

lemma predecessor_length:
  "0 \<le> num \<Longrightarrow> length (nat_digits (nat \<bar>num - 1\<bar>)) \<le> length (nat_digits (nat num))"
proof (cases "num = 0")
  case True
  then show ?thesis by (subst nat_digits_length, subst (2) nat_digits_length) simp
next
  case False
  assume "0 \<le> num"
  with False have "nat \<bar>num - 1\<bar> \<le> nat num" by simp
  then show ?thesis by (rule nat_digits_mono)
qed

lemma py_str_predecessor:
  assumes "canonical k" "\<not> too_long max_digits (length k)" "0 < int (dec_value k)"
  shows "py_str max_digits (int (dec_value k) - 1) = Some (int_text (int (dec_value k) - 1))"
proof -
  have "length (nat_digits (nat \<bar>int (dec_value k) - 1\<bar>)) \<le> length k"
    using predecessor_length[of "int (dec_value k)"] canonical_length[OF assms(1)] by simp
  with assms(2) have "\<not> too_long max_digits (length (nat_digits (nat \<bar>int (dec_value k) - 1\<bar>)))"
    by (rule too_long_mono)
  then show ?thesis by (simp add: py_str_def)
qed

lemma reindex_items_foldl:
  "list_all (\<lambda>item. canonical (fst item) \<and> \<not> too_long max_digits (length (fst item))) items \<Longrightarrow>
   0 \<le> dn \<Longrightarrow>
     reindex_items max_digits dn acc items =
       Inr (foldl (\<lambda>a item. setitem a (fst item) (snd item)) acc (renumbered dn items))"
proof (induction items arbitrary: acc)
  case Nil
  then show ?case by (simp add: renumbered_def)
next
  case (Cons item items)
  obtain k v where kv: "item = (k, v)" by (cases item)
  from Cons.prems kv have c: "canonical k" and l: "\<not> too_long max_digits (length k)" by simp_all
  have i: "py_int max_digits k = Some (int (dec_value k))"
    using canonical_decimal[OF c] l by (rule py_int_decimal)
  have s: "int (dec_value k) > dn \<Longrightarrow>
      py_str max_digits (int (dec_value k) - 1) = Some (int_text (int (dec_value k) - 1))"
    using py_str_predecessor[OF c l] Cons.prems(2) by simp
  from Cons kv i s show ?case by (simp add: renumbered_def shift_key_def)
qed

lemma update_fresh_key: "k \<notin> fst ` set al \<Longrightarrow> AList.update k v al = al @ [(k, v)]"
  by (induction al) auto

lemma foldl_setitem_distinct:
  "distinct (map fst (acc @ xs)) \<Longrightarrow>
     foldl (\<lambda>a item. setitem a (fst item) (snd item)) acc xs = acc @ xs"
proof (induction xs arbitrary: acc)
  case Nil
  then show ?case by simp
next
  case (Cons x xs)
  from Cons.prems have "fst x \<notin> fst ` set acc" by auto
  then have "setitem acc (fst x) (snd x) = acc @ [x]"
    by (simp add: setitem_def update_fresh_key)
  moreover from Cons.prems have "distinct (map fst ((acc @ [x]) @ xs))" by simp
  ultimately show ?case using Cons.IH[of "acc @ [x]"] by simp
qed

lemma int_text_inject:
  assumes "0 \<le> m" "0 \<le> n" "int_text m = int_text n"
  shows "m = n"
proof -
  have "m = int (dec_value (int_text m))" using assms(1) by (simp add: dec_value_int_text)
  also have "\<dots> = int (dec_value (int_text n))" by (simp only: assms(3))
  also have "\<dots> = n" using assms(2) by (simp add: dec_value_int_text)
  finally show ?thesis .
qed

lemma canonical_value: "canonical k \<Longrightarrow> k = int_text (int (dec_value k))"
  by (simp add: canonical_def)

lemma shift_key_inject:
  assumes "canonical k" "canonical k'" "0 \<le> dn"
    and "int (dec_value k) \<noteq> dn" "int (dec_value k') \<noteq> dn"
    and "shift_key dn k = shift_key dn k'"
  shows "k = k'"
proof -
  let ?m = "int (dec_value k)" and ?m' = "int (dec_value k')"
  have k: "k = int_text ?m" "k' = int_text ?m'" using assms(1,2) by (simp_all add: canonical_def)
  have "?m = ?m'"
  proof (cases "?m > dn"; cases "?m' > dn")
    assume "?m > dn" "?m' > dn"
    with assms(3,6) have "?m - 1 = ?m' - 1"
      by (intro int_text_inject) (auto simp: shift_key_def)
    then show ?thesis by simp
  next
    assume a: "?m > dn" "\<not> ?m' > dn"
    with assms(6) have "int_text (?m - 1) = int_text ?m'" using k by (simp add: shift_key_def)
    with a assms(3) have "?m - 1 = ?m'" by (intro int_text_inject) auto
    with a assms(5) show ?thesis by simp
  next
    assume a: "\<not> ?m > dn" "?m' > dn"
    with assms(6) have "int_text ?m = int_text (?m' - 1)" using k by (simp add: shift_key_def)
    with a assms(3) have "?m = ?m' - 1" by (intro int_text_inject) auto
    with a assms(4) show ?thesis by simp
  next
    assume "\<not> ?m > dn" "\<not> ?m' > dn"
    with assms(6) show ?thesis by (simp add: shift_key_def)
  qed
  with k show ?thesis by simp
qed

lemma renumbered_keys:
  "x \<in> fst ` set (renumbered dn d) \<Longrightarrow>
     \<exists>k' \<in> fst ` set d. int (dec_value k') \<noteq> dn \<and> x = shift_key dn k'"
  by (force simp: renumbered_def)

lemma renumbered_distinct:
  assumes "is_dict d" "list_all (\<lambda>item. canonical (fst item)) d" "0 \<le> dn"
  shows "is_dict (renumbered dn d)"
  using assms(1,2)
proof (induction d)
  case Nil
  then show ?case by (simp add: is_dict_def renumbered_def)
next
  case (Cons item d)
  then have ih: "is_dict (renumbered dn d)" by (simp add: is_dict_def)
  show ?case
  proof (cases "int (dec_value (fst item)) = dn")
    case True
    with ih show ?thesis by (simp add: renumbered_def)
  next
    case False
    have "shift_key dn (fst item) \<notin> fst ` set (renumbered dn d)"
    proof
      assume "shift_key dn (fst item) \<in> fst ` set (renumbered dn d)"
      then obtain k' where k': "k' \<in> fst ` set d" "int (dec_value k') \<noteq> dn"
        "shift_key dn (fst item) = shift_key dn k'"
        using renumbered_keys by blast
      from k'(1) Cons.prems(2) have "canonical k'" by (auto simp: list_all_iff)
      moreover from Cons.prems(2) have "canonical (fst item)" by simp
      ultimately have "fst item = k'"
        using shift_key_inject[OF _ _ assms(3) False k'(2) k'(3)] by simp
      with k'(1) Cons.prems(1) show False by (simp add: is_dict_def)
    qed
    moreover have "renumbered dn (item # d) =
        (shift_key dn (fst item), snd item) # renumbered dn d"
      using False by (simp add: renumbered_def)
    ultimately show ?thesis using ih by (simp add: is_dict_def)
  qed
qed

lemma renumbered_lookup:
  assumes "list_all (\<lambda>item. canonical (fst item)) d" "0 \<le> dn" "0 \<le> n"
  shows "map_of (renumbered dn d) (int_text n) =
     (if n < dn then map_of d (int_text n) else map_of d (int_text (n + 1)))"
  using assms(1)
proof (induction d)
  case Nil
  then show ?case by (simp add: renumbered_def)
next
  case (Cons item d)
  obtain k v where kv: "item = (k, v)" by (cases item)
  let ?m = "int (dec_value k)"
  have k: "k = int_text ?m" using Cons.prems kv by (simp add: canonical_def)
  have m0: "0 \<le> ?m" by simp
  have eq: "(int_text a = k) = (a = ?m)" if "0 \<le> a" for a
    using int_text_inject[OF that m0] k by auto
  have ih: "map_of (renumbered dn d) (int_text n) =
     (if n < dn then map_of d (int_text n) else map_of d (int_text (n + 1)))"
    using Cons by simp
  have r: "renumbered dn (item # d) =
      (if ?m = dn then renumbered dn d else (shift_key dn k, v) # renumbered dn d)"
    using kv by (simp add: renumbered_def)
  show ?case
  proof (cases "?m = dn")
    case True
    then show ?thesis using r ih kv assms(2,3) eq[of n] eq[of "n + 1"] by auto
  next
    case False
    show ?thesis
    proof (cases "?m > dn")
      case True
      then have s: "shift_key dn k = int_text (?m - 1)" by (simp add: shift_key_def)
      have e: "(int_text n = int_text (?m - 1)) = (n = ?m - 1)"
        using int_text_inject[of n "?m - 1"] True assms(2,3) by auto
      show ?thesis using r ih kv False True s e assms(2,3) eq[of n] eq[of "n + 1"] by auto
    next
      case lower: False
      then have s: "shift_key dn k = k" by (simp add: shift_key_def)
      show ?thesis using r ih kv False lower s assms(2,3) eq[of n] eq[of "n + 1"] by auto
    qed
  qed
qed

lemma canonical_isdigit: "list_all (\<lambda>item. canonical (fst item)) d \<Longrightarrow>
    list_all (\<lambda>item. py_isdigit (fst item)) d"
  by (auto simp: list_all_iff canonical_def)

text \<open>
  The inner loop on its own: for a store with canonical keys within the limit on integer
  conversions and a deleted index that is not negative, the loop raises no error and
  returns the renumbered store, in the order of the store; there the entry of index \<open>n\<close>
  is the old entry of \<open>n\<close> below the deleted index, and the old entry of \<open>n + 1\<close> from the
  deleted index on.
\<close>

theorem reindex_items_renumbers:
  "is_dict d \<Longrightarrow> list_all (\<lambda>item. canonical (fst item)) d \<Longrightarrow>
   list_all (\<lambda>item. \<not> too_long max_digits (length (fst item))) d \<Longrightarrow> 0 \<le> dn \<Longrightarrow>
     reindex_items max_digits dn [] d = Inr (renumbered dn d)
     \<and> is_dict (renumbered dn d)
     \<and> (\<forall>n\<ge>0. map_of (renumbered dn d) (int_text n) =
           (if n < dn then map_of d (int_text n) else map_of d (int_text (n + 1))))"
proof -
  assume d: "is_dict d" and c: "list_all (\<lambda>item. canonical (fst item)) d"
    and l: "list_all (\<lambda>item. \<not> too_long max_digits (length (fst item))) d" and dn: "0 \<le> dn"
  have cl: "list_all (\<lambda>item. canonical (fst item) \<and> \<not> too_long max_digits (length (fst item))) d"
    using c l by (auto simp: list_all_iff)
  have r: "is_dict (renumbered dn d)" using d c dn by (rule renumbered_distinct)
  then have "foldl (\<lambda>a item. setitem a (fst item) (snd item)) [] (renumbered dn d) = renumbered dn d"
    using foldl_setitem_distinct[of "[]" "renumbered dn d"] by (simp add: is_dict_def)
  then have "reindex_items max_digits dn [] d = Inr (renumbered dn d)"
    using reindex_items_foldl[OF cl dn, of "[]"] by simp
  then show ?thesis using r renumbered_lookup[OF c dn] by simp
qed

lemma canonical_2: "canonical ''2''"
  by code_simp

lemma renumbered_web: "renumbered 1 [(''2'', ''web'')] = [(''1'', ''web'')]"
  by code_simp

theorem reindex_items_renumbers_witness:
  "is_dict [(''2'', ''web'')] \<and> list_all (\<lambda>item. canonical (fst item)) [(''2'', ''web'')]
   \<and> list_all (\<lambda>item. \<not> too_long 4300 (length (fst item))) [(''2'', ''web'')]
   \<and> (0::int) \<le> 1
   \<and> reindex_items 4300 1 [] [(''2'', ''web'')] = Inr [(''1'', ''web'')]"
proof -
  have 1: "is_dict [(''2'', ''web'')]" by (simp add: is_dict_def)
  have 2: "list_all (\<lambda>item. canonical (fst item)) [(''2'', ''web'')]" by (simp add: canonical_2)
  have 3: "list_all (\<lambda>item. \<not> too_long 4300 (length (fst item))) [(''2'', ''web'')]"
    by (simp add: too_long_def)
  have 4: "(0::int) \<le> 1" by simp
  show ?thesis using 1 2 3 reindex_items_renumbers[OF 1 2 3 4] by (simp add: renumbered_web)
qed

lemma delete_first_of_three:
  "(case delete_firewall_rule accepting_host (Typed ''y'')
      ((fresh ''/h'' Map.empty ())
         \<lparr>rules := [(''[ 1]'', ''22 ALLOW Anywhere''), (''[ 2]'', ''80 ALLOW Anywhere''),
                    (''[ 3]'', ''443 ALLOW Anywhere'')],
          notes := [(''3'', ''x'')], services := [(''2'', ''x'')]\<rparr>) of
      Returns s' \<Rightarrow>
        Some (notes s', services s', files s' ''/h/notes.txt'', files s' ''/h/services.txt'')
    | Raises e w \<Rightarrow> None
    | Blocks \<Rightarrow> None)
   = Some ([(''1'', ''x'')], [(''2'', ''x'')], Some (''2:x'' @ [CHR 0x0A]), Some (''1:x'' @ [CHR 0x0A]))"
  by code_simp

lemma reindex_each_store:
  "reindex_items 4300 1 [] [(''3'', ''x'')] = Inr [(''2'', ''x'')]
   \<and> reindex_items 4300 1 [] [(''2'', ''x'')] = Inr [(''1'', ''x'')]"
  by code_simp

text \<open>
  Claim C1 at a deletion where the service store equals the renumbered note store. The
  rules are numbered 1 to 3, rule 3 has the note \<open>x\<close>, rule 2 the service \<open>x\<close>, and rule 1
  is deleted. Renumbering each store on its own gives the note at 2 and the service at 1,
  and that is what the two files receive. In memory the second round of the loop finds
  the service store equal to the new note store, so the renumbered services replace the
  notes and the service store keeps its old numbering.
\<close>

theorem delete_mixes_equal_stores:
  "\<exists>s'. delete_firewall_rule accepting_host (Typed ''y'')
      ((fresh ''/h'' Map.empty ())
         \<lparr>rules := [(''[ 1]'', ''22 ALLOW Anywhere''), (''[ 2]'', ''80 ALLOW Anywhere''),
                    (''[ 3]'', ''443 ALLOW Anywhere'')],
          notes := [(''3'', ''x'')], services := [(''2'', ''x'')]\<rparr>) = Returns s'
     \<and> notes s' = [(''1'', ''x'')] \<and> services s' = [(''2'', ''x'')]
     \<and> files s' ''/h/notes.txt'' = Some (''2:x'' @ [CHR 0x0A])
     \<and> files s' ''/h/services.txt'' = Some (''1:x'' @ [CHR 0x0A])
     \<and> reindex_items 4300 1 [] [(''3'', ''x'')] = Inr [(''2'', ''x'')]
     \<and> reindex_items 4300 1 [] [(''2'', ''x'')] = Inr [(''1'', ''x'')]"
  using delete_first_of_three reindex_each_store
  by (cases "delete_firewall_rule accepting_host (Typed ''y'')
      ((fresh ''/h'' Map.empty ())
         \<lparr>rules := [(''[ 1]'', ''22 ALLOW Anywhere''), (''[ 2]'', ''80 ALLOW Anywhere''),
                    (''[ 3]'', ''443 ALLOW Anywhere'')],
          notes := [(''3'', ''x'')], services := [(''2'', ''x'')]\<rparr>)") simp_all

text \<open>The example of the claim: the service \<open>web\<close> and the note \<open>note\<close> of rule 2 move to
  rule 1 when rule 1 is deleted.\<close>

lemma delete_claim_example:
  "(case delete_firewall_rule accepting_host (Typed ''y'')
      ((fresh ''/h'' Map.empty ())
         \<lparr>rules := [(''[ 1]'', ''22 ALLOW Anywhere''), (''[ 2]'', ''80 ALLOW Anywhere''),
                    (''[ 3]'', ''443 ALLOW Anywhere'')],
          notes := [(''2'', ''note'')], services := [(''2'', ''web'')]\<rparr>) of
      Returns s' \<Rightarrow> Some (notes s', services s')
    | Raises e w \<Rightarrow> None
    | Blocks \<Rightarrow> None)
   = Some ([(''1'', ''note'')], [(''1'', ''web'')])"
  by code_simp

subsection \<open>Leaving a dialog without committing\<close>



lemma status_message_same: "s\<lparr>status_message := status_message s\<rparr> = s"
  by simp






text \<open>The prompt reads its answer trimmed and in either letter case: a capital \<open>Y\<close> and a
  \<open>y\<close> after a no-break space confirm.\<close>

lemma confirm_action_examples:
  "confirm_action (Typed ''y'') = Inr True \<and> confirm_action (Typed ''Y'') = Inr True
   \<and> confirm_action (Typed [CHR 0xA0, CHR ''y'']) = Inr True
   \<and> confirm_action (Typed '' y '') = Inr True
   \<and> confirm_action (Typed ''n'') = Inr False \<and> confirm_action (Typed ''yes'') = Inr False
   \<and> confirm_action (Typed []) = Inr False"
  by code_simp




lemma strip_brackets_1: "strip_brackets ''[ 1]'' = ''1''"
  by code_simp

lemma isdigit_1: "py_isdigit ''1''"
  by code_simp


lemma delete_answer_undecodable:
  "delete_firewall_rule h Undecodable (s\<lparr>rules := [(''[ 1]'', ''22 ALLOW Anywhere'')], selected_index := 0\<rparr>)
     = Raises UnicodeDecodeError \<lparr>files_left = files s, commands_run = issued s\<rparr>"
  by (simp add: delete_firewall_rule_def Let_def strip_brackets_1 isdigit_1 confirm_action_def
      left_by_def)


subsection \<open>Finding the rule an add produced\<close>

lemma set_added_rules: "set (added_rules old_rules new_rules) = set new_rules - set old_rules"
  by (auto simp: added_rules_def)

lemma added_rules_none: "set new_rules \<subseteq> set old_rules \<Longrightarrow> added_rules old_rules new_rules = []"
  by (auto simp: added_rules_def filter_empty_conv)

lemma get_firewall_rules_status:
  "get_firewall_rules h s = Returns s' \<Longrightarrow> rules s' \<noteq> [] \<Longrightarrow>
     status_message s' = status_message s"
  by (auto simp: get_firewall_rules_def Let_def split: prod.splits sum.splits if_splits
      dest!: run_command_frame)

lemma and_then_Returns: "and_then (Returns x) f = f x"
  by (simp add: and_then_def)

text \<open>The add branch after the form, the command and the first fetch.\<close>

lemma add_branch:
  assumes form: "get_rule_input_from_form None keys s
      = Returns (Some (cmd, service_text, note_text), rest, s)"
    and run: "run_command h (''sudo ufw '' @ cmd) None s = (Inr out, s1)"
    and fetch: "get_firewall_rules h s1 = Returns s2"
  shows "add_or_edit_rule h False keys s =
     and_then (annotate_added h (rules s) service_text note_text s2)
       (\<lambda>s3. get_firewall_rules h (s3\<lparr>status_message := ''Rule applied successfully.''\<rparr>))"
  using form run fetch by (simp add: add_or_edit_rule_def and_then_Returns)

lemma fetched_frame:
  assumes run: "run_command h c i s = (r, s1)" and fetch: "get_firewall_rules h s1 = Returns s2"
  shows "notes s2 = notes s" "services s2 = services s" "files s2 = files s"
    "notes_dir s2 = notes_dir s"
  using run_command_frame[OF run] get_firewall_rules_frame[OF fetch] by simp_all

lemma closing_fetch:
  "\<exists>s3. get_firewall_rules h (sa\<lparr>status_message := ''Rule applied successfully.''\<rparr>) = Returns s3
     \<and> notes s3 = notes sa \<and> services s3 = services sa \<and> files s3 = files sa
     \<and> (rules s3 \<noteq> [] \<longrightarrow> status_message s3 = ''Rule applied successfully.'')"
proof -
  obtain s3 where last: "get_firewall_rules h (sa\<lparr>status_message := ''Rule applied successfully.''\<rparr>)
      = Returns s3"
    using get_firewall_rules_returns by blast
  have "notes s3 = notes sa" "services s3 = services sa" "files s3 = files sa"
    using get_firewall_rules_frame[OF last] by simp_all
  moreover have "status_message s3 = ''Rule applied successfully.''" if "rules s3 \<noteq> []"
    using get_firewall_rules_status[OF last that] by simp
  ultimately show ?thesis using last by blast
qed

lemma add_without_new_rule_run:
  assumes form: "get_rule_input_from_form None keys s
      = Returns (Some (cmd, service_text, note_text), rest, s)"
    and run: "run_command h (''sudo ufw '' @ cmd) None s = (Inr out, s1)"
    and fetch: "get_firewall_rules h s1 = Returns s2"
    and none: "added_rules (rules s) (rules s2) = []"
  shows "\<exists>s3. add_or_edit_rule h False keys s = Returns s3 \<and> notes s3 = notes s
     \<and> services s3 = services s \<and> files s3 = files s
     \<and> (rules s3 \<noteq> [] \<longrightarrow> status_message s3 = ''Rule applied successfully.'')"
proof -
  have a: "annotate_added h (rules s) service_text note_text s2 = Returns s2"
    using none by (simp add: annotate_added_def)
  have res: "add_or_edit_rule h False keys s
      = get_firewall_rules h (s2\<lparr>status_message := ''Rule applied successfully.''\<rparr>)"
    unfolding add_branch[OF form run fetch] a by (rule and_then_Returns)
  show ?thesis unfolding res using closing_fetch[of h s2] fetched_frame[OF run fetch] by simp
qed

text \<open>A save that can write, of a store whose keys \<^verbatim>\<open>int\<close> accepts.\<close>

lemma save_written:
  assumes w: "io_error h (OpenWrite p) = None" and so: "sortable (int_max_str_digits h) d"
  shows "\<exists>s'. save_notes_or_services h p d s = Returns s'
     \<and> files s' p = store_text (int_max_str_digits h) d
     \<and> (\<forall>q. q \<noteq> p \<longrightarrow> files s' q = files s q)
     \<and> notes s' = notes s \<and> services s' = services s \<and> rules s' = rules s
     \<and> notes_dir s' = notes_dir s \<and> status_message s' = status_message s"
proof -
  from store_text_Some[OF so] obtain body where b: "store_text (int_max_str_digits h) d = Some body"
    by blast
  have "save_notes_or_services h p d s = Returns (s\<lparr>files := (files s)(p \<mapsto> body)\<rparr>)"
    using w b by (rule save_ok)
  then show ?thesis using b by simp
qed

lemma annotate_service:
  assumes w: "io_error h (OpenWrite (services_file s2)) = None"
    and so: "service_text \<noteq> [] \<longrightarrow>
      sortable (int_max_str_digits h) (setitem (services s2) num service_text)"
  shows "\<exists>sa. (if service_text \<noteq> []
          then let d = setitem (services s2) num service_text
               in save_notes_or_services h (services_file s2) d (s2\<lparr>services := d\<rparr>)
          else Returns s2) = Returns sa
     \<and> services sa = (if service_text = [] then services s2
                      else setitem (services s2) num service_text)
     \<and> (service_text \<noteq> [] \<longrightarrow>
          files sa (services_file s2) = store_text (int_max_str_digits h) (services sa))
     \<and> notes sa = notes s2 \<and> rules sa = rules s2 \<and> notes_dir sa = notes_dir s2
     \<and> status_message sa = status_message s2"
proof (cases "service_text = []")
  case True
  then show ?thesis by simp
next
  case False
  let ?d = "setitem (services s2) num service_text"
  from so False have "sortable (int_max_str_digits h) ?d" by simp
  from save_written[OF w this, of "s2\<lparr>services := ?d\<rparr>"] obtain sa where
    "save_notes_or_services h (services_file s2) ?d (s2\<lparr>services := ?d\<rparr>) = Returns sa"
    "files sa (services_file s2) = store_text (int_max_str_digits h) ?d"
    "notes sa = notes s2" "services sa = ?d" "rules sa = rules s2" "notes_dir sa = notes_dir s2"
    "status_message sa = status_message s2"
    by auto
  with False show ?thesis by (simp add: Let_def)
qed

lemma annotate_note:
  assumes w: "io_error h (OpenWrite (notes_file sa)) = None"
    and so: "note_text \<noteq> [] \<longrightarrow>
      sortable (int_max_str_digits h) (setitem (notes sa) num note_text)"
  shows "\<exists>sb. (if note_text \<noteq> []
          then let d = setitem (notes sa) num note_text
               in save_notes_or_services h (notes_file sa) d (sa\<lparr>notes := d\<rparr>)
          else Returns sa) = Returns sb
     \<and> notes sb = (if note_text = [] then notes sa else setitem (notes sa) num note_text)
     \<and> (note_text \<noteq> [] \<longrightarrow>
          files sb (notes_file sa) = store_text (int_max_str_digits h) (notes sb))
     \<and> files sb (services_file sa) = files sa (services_file sa)
     \<and> services sb = services sa \<and> rules sb = rules sa \<and> notes_dir sb = notes_dir sa
     \<and> status_message sb = status_message sa"
proof (cases "note_text = []")
  case True
  then show ?thesis by simp
next
  case False
  let ?d = "setitem (notes sa) num note_text"
  from so False have "sortable (int_max_str_digits h) ?d" by simp
  from save_written[OF w this, of "sa\<lparr>notes := ?d\<rparr>"] obtain sb where
    "save_notes_or_services h (notes_file sa) ?d (sa\<lparr>notes := ?d\<rparr>) = Returns sb"
    "files sb (notes_file sa) = store_text (int_max_str_digits h) ?d"
    "\<forall>q. q \<noteq> notes_file sa \<longrightarrow> files sb q = files sa q"
    "notes sb = ?d" "services sb = services sa" "rules sb = rules sa" "notes_dir sb = notes_dir sa"
    "status_message sb = status_message sa"
    by auto
  with False files_differ[of sa] show ?thesis by (simp add: Let_def)
qed

lemma paths_notes_dir:
  "notes_dir s' = notes_dir s \<Longrightarrow> notes_file s' = notes_file s \<and> services_file s' = services_file s"
  by (simp add: notes_file_def services_file_def)

text \<open>The annotation step when exactly one rule is new: the two texts are stored at its
  number and the stores saved.\<close>

lemma annotate_single:
  assumes one: "added_rules old_rules (rules s2) = [r]"
    and ws: "io_error h (OpenWrite (services_file s2)) = None"
    and wn: "io_error h (OpenWrite (notes_file s2)) = None"
    and ss: "service_text \<noteq> [] \<longrightarrow> sortable (int_max_str_digits h)
        (setitem (services s2) (strip_brackets (fst r)) service_text)"
    and sn: "note_text \<noteq> [] \<longrightarrow> sortable (int_max_str_digits h)
        (setitem (notes s2) (strip_brackets (fst r)) note_text)"
  shows "\<exists>sb. annotate_added h old_rules service_text note_text s2 = Returns sb
     \<and> services sb = (if service_text = [] then services s2
                      else setitem (services s2) (strip_brackets (fst r)) service_text)
     \<and> notes sb = (if note_text = [] then notes s2
                   else setitem (notes s2) (strip_brackets (fst r)) note_text)
     \<and> (service_text \<noteq> [] \<longrightarrow>
          files sb (services_file s2) = store_text (int_max_str_digits h) (services sb))
     \<and> (note_text \<noteq> [] \<longrightarrow>
          files sb (notes_file s2) = store_text (int_max_str_digits h) (notes sb))"
proof -
  let ?num = "strip_brackets (fst r)"
  from annotate_service[OF ws ss] obtain sa where
    a: "(if service_text \<noteq> []
          then let d = setitem (services s2) ?num service_text
               in save_notes_or_services h (services_file s2) d (s2\<lparr>services := d\<rparr>)
          else Returns s2) = Returns sa"
    and a1: "services sa = (if service_text = [] then services s2
                      else setitem (services s2) ?num service_text)"
    and a2: "service_text \<noteq> [] \<longrightarrow>
          files sa (services_file s2) = store_text (int_max_str_digits h) (services sa)"
    and a3: "notes sa = notes s2" "notes_dir sa = notes_dir s2"
    by blast
  have p: "notes_file sa = notes_file s2" "services_file sa = services_file s2"
    using paths_notes_dir[OF a3(2)] by simp_all
  have wn': "io_error h (OpenWrite (notes_file sa)) = None" using wn p by simp
  have sn': "note_text \<noteq> [] \<longrightarrow>
      sortable (int_max_str_digits h) (setitem (notes sa) ?num note_text)"
    using sn a3 by simp
  from annotate_note[OF wn' sn'] obtain sb where
    b: "(if note_text \<noteq> []
          then let d = setitem (notes sa) ?num note_text
               in save_notes_or_services h (notes_file sa) d (sa\<lparr>notes := d\<rparr>)
          else Returns sa) = Returns sb"
    and b1: "notes sb = (if note_text = [] then notes sa else setitem (notes sa) ?num note_text)"
    and b2: "note_text \<noteq> [] \<longrightarrow>
          files sb (notes_file sa) = store_text (int_max_str_digits h) (notes sb)"
    and b3: "files sb (services_file sa) = files sa (services_file sa)" "services sb = services sa"
    by blast
  have "annotate_added h old_rules service_text note_text s2 =
      and_then (if service_text \<noteq> []
          then let d = setitem (services s2) ?num service_text
               in save_notes_or_services h (services_file s2) d (s2\<lparr>services := d\<rparr>)
          else Returns s2)
        (\<lambda>s1. if note_text \<noteq> []
             then let d = setitem (notes s1) ?num note_text
                  in save_notes_or_services h (notes_file s1) d (s1\<lparr>notes := d\<rparr>)
             else Returns s1)"
    using one by (simp add: annotate_added_def Let_def)
  then have r: "annotate_added h old_rules service_text note_text s2 = Returns sb"
    unfolding a and_then_Returns b .
  show ?thesis
  proof (intro exI conjI)
    show "annotate_added h old_rules service_text note_text s2 = Returns sb" by (rule r)
    show "services sb = (if service_text = [] then services s2
                      else setitem (services s2) ?num service_text)"
      using a1 b3(2) by simp
    show "notes sb = (if note_text = [] then notes s2 else setitem (notes s2) ?num note_text)"
      using b1 a3(1) by simp
    show "service_text \<noteq> [] \<longrightarrow>
          files sb (services_file s2) = store_text (int_max_str_digits h) (services sb)"
      using a2 b3 p by simp
    show "note_text \<noteq> [] \<longrightarrow>
          files sb (notes_file s2) = store_text (int_max_str_digits h) (notes sb)"
      using b2 p by simp
  qed
qed

lemma add_one_new_rule_run:
  assumes form: "get_rule_input_from_form None keys s
      = Returns (Some (cmd, service_text, note_text), rest, s)"
    and run: "run_command h (''sudo ufw '' @ cmd) None s = (Inr out, s1)"
    and fetch: "get_firewall_rules h s1 = Returns s2"
    and one: "added_rules (rules s) (rules s2) = [r]"
    and ws: "io_error h (OpenWrite (services_file s)) = None"
    and wn: "io_error h (OpenWrite (notes_file s)) = None"
    and ss: "service_text \<noteq> [] \<longrightarrow> sortable (int_max_str_digits h)
        (setitem (services s) (strip_brackets (fst r)) service_text)"
    and sn: "note_text \<noteq> [] \<longrightarrow> sortable (int_max_str_digits h)
        (setitem (notes s) (strip_brackets (fst r)) note_text)"
  shows "\<exists>s3. add_or_edit_rule h False keys s = Returns s3
     \<and> services s3 = (if service_text = [] then services s
                      else setitem (services s) (strip_brackets (fst r)) service_text)
     \<and> notes s3 = (if note_text = [] then notes s
                   else setitem (notes s) (strip_brackets (fst r)) note_text)
     \<and> (service_text \<noteq> [] \<longrightarrow>
          files s3 (services_file s) = store_text (int_max_str_digits h) (services s3))
     \<and> (note_text \<noteq> [] \<longrightarrow>
          files s3 (notes_file s) = store_text (int_max_str_digits h) (notes s3))
     \<and> (rules s3 \<noteq> [] \<longrightarrow> status_message s3 = ''Rule applied successfully.'')"
proof -
  note f = fetched_frame[OF run fetch]
  have p: "notes_file s2 = notes_file s" "services_file s2 = services_file s"
    using paths_notes_dir[OF f(4)] by simp_all
  have ws2: "io_error h (OpenWrite (services_file s2)) = None" using ws p by simp
  have wn2: "io_error h (OpenWrite (notes_file s2)) = None" using wn p by simp
  have ss2: "service_text \<noteq> [] \<longrightarrow> sortable (int_max_str_digits h)
        (setitem (services s2) (strip_brackets (fst r)) service_text)"
    using ss f by simp
  have sn2: "note_text \<noteq> [] \<longrightarrow> sortable (int_max_str_digits h)
        (setitem (notes s2) (strip_brackets (fst r)) note_text)"
    using sn f by simp
  from annotate_single[OF one ws2 wn2 ss2 sn2] obtain sb where
    a: "annotate_added h (rules s) service_text note_text s2 = Returns sb"
    and a1: "services sb = (if service_text = [] then services s2
                      else setitem (services s2) (strip_brackets (fst r)) service_text)"
    and a2: "notes sb = (if note_text = [] then notes s2
                   else setitem (notes s2) (strip_brackets (fst r)) note_text)"
    and a3: "service_text \<noteq> [] \<longrightarrow>
          files sb (services_file s2) = store_text (int_max_str_digits h) (services sb)"
    and a4: "note_text \<noteq> [] \<longrightarrow>
          files sb (notes_file s2) = store_text (int_max_str_digits h) (notes sb)"
    by blast
  have res: "add_or_edit_rule h False keys s
      = get_firewall_rules h (sb\<lparr>status_message := ''Rule applied successfully.''\<rparr>)"
    unfolding add_branch[OF form run fetch] a by (rule and_then_Returns)
  from closing_fetch[of h sb] obtain s3 where
    c: "get_firewall_rules h (sb\<lparr>status_message := ''Rule applied successfully.''\<rparr>) = Returns s3"
    and c1: "notes s3 = notes sb" "services s3 = services sb" "files s3 = files sb"
    and c2: "rules s3 \<noteq> [] \<longrightarrow> status_message s3 = ''Rule applied successfully.''"
    by blast
  show ?thesis
  proof (intro exI conjI)
    show "add_or_edit_rule h False keys s = Returns s3" unfolding res by (rule c)
    show "services s3 = (if service_text = [] then services s
                      else setitem (services s) (strip_brackets (fst r)) service_text)"
      using a1 c1 f by simp
    show "notes s3 = (if note_text = [] then notes s
                   else setitem (notes s) (strip_brackets (fst r)) note_text)"
      using a2 c1 f by simp
    show "service_text \<noteq> [] \<longrightarrow>
          files s3 (services_file s) = store_text (int_max_str_digits h) (services s3)"
      using a3 c1 p by simp
    show "note_text \<noteq> [] \<longrightarrow>
          files s3 (notes_file s) = store_text (int_max_str_digits h) (notes s3)"
      using a4 c1 p by simp
    show "rules s3 \<noteq> [] \<longrightarrow> status_message s3 = ''Rule applied successfully.''" by (rule c2)
  qed
qed

text \<open>
  Claim C7, as the code has it. The rules taken as added are the pairs of the new listing
  that the old one does not hold: for the listings of the claim that is rule 3 alone, and
  nothing for two equal listings. Take an add whose form is committed and whose command
  the tool accepts, and the listing fetched after it. When that listing holds no new
  pair, the add returns with both stores and every file as they were. When it holds
  exactly one new pair, the files can be written and \<^verbatim>\<open>int\<close> accepts the all-digit
  indices of the stores, the add returns with the service and the note typed in the form
  stored at the number of that rule, in memory and in the two files. In both cases the
  status message is \<open>Rule applied successfully.\<close> provided the closing fetch lists a
  rule. (The claim has the success reported in every case.)
\<close>

theorem added_rule_from_difference:
  "set (added_rules old_rules new_rules) = set new_rules - set old_rules
   \<and> added_rules [(''[ 1]'', ''A''), (''[ 2]'', ''B'')]
        [(''[ 1]'', ''A''), (''[ 2]'', ''B''), (''[ 3]'', ''C'')] = [(''[ 3]'', ''C'')]
   \<and> added_rules old_rules old_rules = []
   \<and> (get_rule_input_from_form None keys s = Returns (Some (cmd, service_text, note_text), rest, s)
      \<and> run_command h (''sudo ufw '' @ cmd) None s = (Inr out, s1)
      \<and> get_firewall_rules h s1 = Returns s2
      \<longrightarrow> (added_rules (rules s) (rules s2) = []
           \<longrightarrow> (\<exists>s3. add_or_edit_rule h False keys s = Returns s3 \<and> notes s3 = notes s
                 \<and> services s3 = services s \<and> files s3 = files s
                 \<and> (rules s3 \<noteq> [] \<longrightarrow> status_message s3 = ''Rule applied successfully.'')))
        \<and> (added_rules (rules s) (rules s2) = [r]
           \<and> io_error h (OpenWrite (services_file s)) = None
           \<and> io_error h (OpenWrite (notes_file s)) = None
           \<and> (service_text \<noteq> [] \<longrightarrow> sortable (int_max_str_digits h)
                (setitem (services s) (strip_brackets (fst r)) service_text))
           \<and> (note_text \<noteq> [] \<longrightarrow> sortable (int_max_str_digits h)
                (setitem (notes s) (strip_brackets (fst r)) note_text))
           \<longrightarrow> (\<exists>s3. add_or_edit_rule h False keys s = Returns s3
                 \<and> services s3 = (if service_text = [] then services s
                      else setitem (services s) (strip_brackets (fst r)) service_text)
                 \<and> notes s3 = (if note_text = [] then notes s
                      else setitem (notes s) (strip_brackets (fst r)) note_text)
                 \<and> (service_text \<noteq> [] \<longrightarrow>
                      files s3 (services_file s) = store_text (int_max_str_digits h) (services s3))
                 \<and> (note_text \<noteq> [] \<longrightarrow>
                      files s3 (notes_file s) = store_text (int_max_str_digits h) (notes s3))
                 \<and> (rules s3 \<noteq> [] \<longrightarrow> status_message s3 = ''Rule applied successfully.''))))"
proof (intro conjI impI)
  show "set (added_rules old_rules new_rules) = set new_rules - set old_rules"
    by (rule set_added_rules)
  show "added_rules [(''[ 1]'', ''A''), (''[ 2]'', ''B'')]
        [(''[ 1]'', ''A''), (''[ 2]'', ''B''), (''[ 3]'', ''C'')] = [(''[ 3]'', ''C'')]"
    by (simp add: added_rules_def)
  show "added_rules old_rules old_rules = []"
    by (simp add: added_rules_none)
next
  assume a: "get_rule_input_from_form None keys s = Returns (Some (cmd, service_text, note_text), rest, s)
      \<and> run_command h (''sudo ufw '' @ cmd) None s = (Inr out, s1)
      \<and> get_firewall_rules h s1 = Returns s2"
    and n: "added_rules (rules s) (rules s2) = []"
  from a have form: "get_rule_input_from_form None keys s
      = Returns (Some (cmd, service_text, note_text), rest, s)"
    and run: "run_command h (''sudo ufw '' @ cmd) None s = (Inr out, s1)"
    and fetch: "get_firewall_rules h s1 = Returns s2"
    by blast+
  show "\<exists>s3. add_or_edit_rule h False keys s = Returns s3 \<and> notes s3 = notes s
                 \<and> services s3 = services s \<and> files s3 = files s
                 \<and> (rules s3 \<noteq> [] \<longrightarrow> status_message s3 = ''Rule applied successfully.'')"
    using form run fetch n by (rule add_without_new_rule_run)
next
  assume a: "get_rule_input_from_form None keys s = Returns (Some (cmd, service_text, note_text), rest, s)
      \<and> run_command h (''sudo ufw '' @ cmd) None s = (Inr out, s1)
      \<and> get_firewall_rules h s1 = Returns s2"
    and b: "added_rules (rules s) (rules s2) = [r]
           \<and> io_error h (OpenWrite (services_file s)) = None
           \<and> io_error h (OpenWrite (notes_file s)) = None
           \<and> (service_text \<noteq> [] \<longrightarrow> sortable (int_max_str_digits h)
                (setitem (services s) (strip_brackets (fst r)) service_text))
           \<and> (note_text \<noteq> [] \<longrightarrow> sortable (int_max_str_digits h)
                (setitem (notes s) (strip_brackets (fst r)) note_text))"
  from a have form: "get_rule_input_from_form None keys s
      = Returns (Some (cmd, service_text, note_text), rest, s)"
    and run: "run_command h (''sudo ufw '' @ cmd) None s = (Inr out, s1)"
    and fetch: "get_firewall_rules h s1 = Returns s2"
    by blast+
  from b have one: "added_rules (rules s) (rules s2) = [r]"
    and ws: "io_error h (OpenWrite (services_file s)) = None"
    and wn: "io_error h (OpenWrite (notes_file s)) = None"
    and ss: "service_text \<noteq> [] \<longrightarrow> sortable (int_max_str_digits h)
                (setitem (services s) (strip_brackets (fst r)) service_text)"
    and sn: "note_text \<noteq> [] \<longrightarrow> sortable (int_max_str_digits h)
                (setitem (notes s) (strip_brackets (fst r)) note_text)"
    by blast+
  show "\<exists>s3. add_or_edit_rule h False keys s = Returns s3
                 \<and> services s3 = (if service_text = [] then services s
                      else setitem (services s) (strip_brackets (fst r)) service_text)
                 \<and> notes s3 = (if note_text = [] then notes s
                      else setitem (notes s) (strip_brackets (fst r)) note_text)
                 \<and> (service_text \<noteq> [] \<longrightarrow>
                      files s3 (services_file s) = store_text (int_max_str_digits h) (services s3))
                 \<and> (note_text \<noteq> [] \<longrightarrow>
                      files s3 (notes_file s) = store_text (int_max_str_digits h) (notes s3))
                 \<and> (rules s3 \<noteq> [] \<longrightarrow> status_message s3 = ''Rule applied successfully.'')"
    using form run fetch one ws wn ss sn by (rule add_one_new_rule_run)
qed

lemma form_loop_web:
  "form_loop default_fields 0 [9, 9, 9, 50, 50, 9, 9, 119, 101, 98, 9, 104, 105, 10] =
     Returns (Some \<lparr>Action = 0, Direction = 0, Protocol = 0, Port = ''22'', From_To_IP = ''any'',
          Service = ''web'', Note = ''hi''\<rparr>, [])"
  by (rule returns_value) code_simp

lemma build_web_22:
  "build_rule \<lparr>Action = 0, Direction = 0, Protocol = 0, Port = ''22'', From_To_IP = ''any'',
      Service = ''web'', Note = ''hi''\<rparr> = ''allow in to any port 22 proto tcp''"
  by code_simp

lemma form_web_22:
  "get_rule_input_from_form None [9, 9, 9, 50, 50, 9, 9, 119, 101, 98, 9, 104, 105, 10] s
     = Returns (Some (''allow in to any port 22 proto tcp'', ''web'', ''hi''), [], s)"
proof -
  have i: "initial_fields s None = Inr default_fields" by (simp add: initial_fields_def)
  show ?thesis using form_result[OF i form_loop_web] by (simp add: isdigit_22 build_web_22)
qed

text \<open>An add on a tool that appends the rule, with the service \<open>web\<close> and the note \<open>hi\<close>
  typed in, and the same add on a tool that holds the rule already.\<close>

lemma appending_fetch:
  "(case get_firewall_rules appending_host
      (snd (run_command appending_host ''sudo ufw allow in to any port 22 proto tcp'' None
         ((fresh ''/h'' Map.empty [''22/tcp ALLOW IN Anywhere''])
            \<lparr>rules := [(''[ 1]'', ''22/tcp ALLOW IN Anywhere'')]\<rparr>))) of
      Returns x \<Rightarrow> Some (rules x)
    | Raises e w \<Rightarrow> None
    | Blocks \<Rightarrow> None)
   = Some [(''[ 1]'', ''22/tcp ALLOW IN Anywhere''), (''[ 2]'', ''allow in to any port 22 proto tcp'')]"
  by code_simp

lemma appending_add:
  "(case add_or_edit_rule appending_host False [9, 9, 9, 50, 50, 9, 9, 119, 101, 98, 9, 104, 105, 10]
      ((fresh ''/h'' Map.empty [''22/tcp ALLOW IN Anywhere''])
         \<lparr>rules := [(''[ 1]'', ''22/tcp ALLOW IN Anywhere'')]\<rparr>) of
      Returns x \<Rightarrow> Some (rules x, issued x)
    | Raises e w \<Rightarrow> None
    | Blocks \<Rightarrow> None)
   = Some ([(''[ 1]'', ''22/tcp ALLOW IN Anywhere''), (''[ 2]'', ''allow in to any port 22 proto tcp'')],
       [''sudo ufw allow in to any port 22 proto tcp'', ''sudo ufw status numbered'',
        ''sudo ufw status numbered''])"
  by code_simp

lemma listing_fetch_one_rule:
  "(case get_firewall_rules listing_host
      (snd (run_command listing_host ''sudo ufw allow in to any port 22 proto tcp'' None
         ((fresh ''/h'' Map.empty (''Status: active'' @ [CHR 0x0A] @ ''[ 1] 22/tcp ALLOW IN Anywhere''))
            \<lparr>rules := [(''[ 1]'', ''22/tcp ALLOW IN Anywhere'')]\<rparr>))) of
      Returns x \<Rightarrow> Some (rules x)
    | Raises e w \<Rightarrow> None
    | Blocks \<Rightarrow> None)
   = Some [(''[ 1]'', ''22/tcp ALLOW IN Anywhere'')]"
  by code_simp

lemma listing_add_existing_rule:
  "(case add_or_edit_rule listing_host False [9, 9, 9, 50, 50, 9, 9, 119, 101, 98, 9, 104, 105, 10]
      ((fresh ''/h'' Map.empty (''Status: active'' @ [CHR 0x0A] @ ''[ 1] 22/tcp ALLOW IN Anywhere''))
         \<lparr>rules := [(''[ 1]'', ''22/tcp ALLOW IN Anywhere'')]\<rparr>) of
      Returns x \<Rightarrow> Some (rules x)
    | Raises e w \<Rightarrow> None
    | Blocks \<Rightarrow> None)
   = Some [(''[ 1]'', ''22/tcp ALLOW IN Anywhere'')]"
  by code_simp

lemma strip_brackets_2: "strip_brackets ''[ 2]'' = ''2''"
  by code_simp

lemma sortable_2:
  "sortable 4300 (setitem [] ''2'' ''web'')" "sortable 4300 (setitem [] ''2'' ''hi'')"
  by code_simp+

lemma store_text_2:
  "store_text 4300 (setitem [] ''2'' ''web'') = Some (''2:web'' @ [CHR 0x0A])"
  "store_text 4300 (setitem [] ''2'' ''hi'') = Some (''2:hi'' @ [CHR 0x0A])"
  by code_simp+

theorem added_rule_from_difference_witness:
  "(\<exists>s1 s2 s3.
      get_rule_input_from_form None [9, 9, 9, 50, 50, 9, 9, 119, 101, 98, 9, 104, 105, 10]
          ((fresh ''/h'' Map.empty [''22/tcp ALLOW IN Anywhere''])
             \<lparr>rules := [(''[ 1]'', ''22/tcp ALLOW IN Anywhere'')]\<rparr>)
        = Returns (Some (''allow in to any port 22 proto tcp'', ''web'', ''hi''), [],
            (fresh ''/h'' Map.empty [''22/tcp ALLOW IN Anywhere''])
              \<lparr>rules := [(''[ 1]'', ''22/tcp ALLOW IN Anywhere'')]\<rparr>)
      \<and> run_command appending_host (''sudo ufw '' @ ''allow in to any port 22 proto tcp'') None
          ((fresh ''/h'' Map.empty [''22/tcp ALLOW IN Anywhere''])
             \<lparr>rules := [(''[ 1]'', ''22/tcp ALLOW IN Anywhere'')]\<rparr>) = (Inr [], s1)
      \<and> get_firewall_rules appending_host s1 = Returns s2
      \<and> added_rules [(''[ 1]'', ''22/tcp ALLOW IN Anywhere'')] (rules s2)
          = [(''[ 2]'', ''allow in to any port 22 proto tcp'')]
      \<and> io_error appending_host (OpenWrite ''/h/services.txt'') = None
      \<and> io_error appending_host (OpenWrite ''/h/notes.txt'') = None
      \<and> sortable (int_max_str_digits appending_host) [(''2'', ''web'')]
      \<and> sortable (int_max_str_digits appending_host) [(''2'', ''hi'')]
      \<and> add_or_edit_rule appending_host False [9, 9, 9, 50, 50, 9, 9, 119, 101, 98, 9, 104, 105, 10]
          ((fresh ''/h'' Map.empty [''22/tcp ALLOW IN Anywhere''])
             \<lparr>rules := [(''[ 1]'', ''22/tcp ALLOW IN Anywhere'')]\<rparr>) = Returns s3
      \<and> services s3 = [(''2'', ''web'')] \<and> notes s3 = [(''2'', ''hi'')]
      \<and> files s3 ''/h/services.txt'' = Some (''2:web'' @ [CHR 0x0A])
      \<and> files s3 ''/h/notes.txt'' = Some (''2:hi'' @ [CHR 0x0A])
      \<and> rules s3 = [(''[ 1]'', ''22/tcp ALLOW IN Anywhere''),
                    (''[ 2]'', ''allow in to any port 22 proto tcp'')]
      \<and> status_message s3 = ''Rule applied successfully.'')
   \<and> (\<exists>s1 s2 s3.
        get_rule_input_from_form None [9, 9, 9, 50, 50, 9, 9, 119, 101, 98, 9, 104, 105, 10]
          ((fresh ''/h'' Map.empty (''Status: active'' @ [CHR 0x0A] @ ''[ 1] 22/tcp ALLOW IN Anywhere''))
             \<lparr>rules := [(''[ 1]'', ''22/tcp ALLOW IN Anywhere'')]\<rparr>)
        = Returns (Some (''allow in to any port 22 proto tcp'', ''web'', ''hi''), [],
            (fresh ''/h'' Map.empty (''Status: active'' @ [CHR 0x0A] @ ''[ 1] 22/tcp ALLOW IN Anywhere''))
              \<lparr>rules := [(''[ 1]'', ''22/tcp ALLOW IN Anywhere'')]\<rparr>)
        \<and> run_command listing_host (''sudo ufw '' @ ''allow in to any port 22 proto tcp'') None
          ((fresh ''/h'' Map.empty (''Status: active'' @ [CHR 0x0A] @ ''[ 1] 22/tcp ALLOW IN Anywhere''))
             \<lparr>rules := [(''[ 1]'', ''22/tcp ALLOW IN Anywhere'')]\<rparr>) = (Inr [], s1)
        \<and> get_firewall_rules listing_host s1 = Returns s2
        \<and> added_rules [(''[ 1]'', ''22/tcp ALLOW IN Anywhere'')] (rules s2) = []
        \<and> add_or_edit_rule listing_host False [9, 9, 9, 50, 50, 9, 9, 119, 101, 98, 9, 104, 105, 10]
          ((fresh ''/h'' Map.empty (''Status: active'' @ [CHR 0x0A] @ ''[ 1] 22/tcp ALLOW IN Anywhere''))
             \<lparr>rules := [(''[ 1]'', ''22/tcp ALLOW IN Anywhere'')]\<rparr>) = Returns s3
        \<and> notes s3 = [] \<and> services s3 = [] \<and> files s3 = Map.empty \<and> rules s3 \<noteq> []
        \<and> status_message s3 = ''Rule applied successfully.'')"
proof (intro conjI)
  let ?K = "[9, 9, 9, 50, 50, 9, 9, 119, 101, 98, 9, 104, 105, 10] :: int list"
  define A where "A = (fresh ''/h'' Map.empty [''22/tcp ALLOW IN Anywhere''])
         \<lparr>rules := [(''[ 1]'', ''22/tcp ALLOW IN Anywhere'')]\<rparr>"
  define a1 where "a1 = snd (run_command appending_host ''sudo ufw allow in to any port 22 proto tcp'' None A)"
  have fields: "services A = []" "notes A = []" "rules A = [(''[ 1]'', ''22/tcp ALLOW IN Anywhere'')]"
    "services_file A = ''/h/services.txt''" "notes_file A = ''/h/notes.txt''"
    by (simp_all add: A_def fresh_def services_file_def notes_file_def)
  have lim: "int_max_str_digits appending_host = 4300" by (simp add: appending_host_def)
  have io: "io_error appending_host op = None" for op by (simp add: appending_host_def)
  have form: "get_rule_input_from_form None ?K A
     = Returns (Some (''allow in to any port 22 proto tcp'', ''web'', ''hi''), [], A)"
    by (rule form_web_22)
  have run: "run_command appending_host (''sudo ufw '' @ ''allow in to any port 22 proto tcp'') None A
      = (Inr [], a1)"
    by (simp add: a1_def run_command_def appending_host_def)
  obtain a2 where fetch: "get_firewall_rules appending_host a1 = Returns a2"
    using get_firewall_rules_returns by blast
  have r2: "rules a2 = [(''[ 1]'', ''22/tcp ALLOW IN Anywhere''),
      (''[ 2]'', ''allow in to any port 22 proto tcp'')]"
    using appending_fetch fetch by (simp add: a1_def A_def)
  have one: "added_rules (rules A) (rules a2) = [(''[ 2]'', ''allow in to any port 22 proto tcp'')]"
    by (simp add: r2 fields added_rules_def)
  have ss: "''web'' \<noteq> [] \<longrightarrow> sortable (int_max_str_digits appending_host)
      (setitem (services A) (strip_brackets (fst (''[ 2]'', ''allow in to any port 22 proto tcp''))) ''web'')"
    by (simp add: lim fields strip_brackets_2 sortable_2)
  have sn: "''hi'' \<noteq> [] \<longrightarrow> sortable (int_max_str_digits appending_host)
      (setitem (notes A) (strip_brackets (fst (''[ 2]'', ''allow in to any port 22 proto tcp''))) ''hi'')"
    by (simp add: lim fields strip_brackets_2 sortable_2)
  from added_rule_from_difference[of "[]" "[]" ?K A "''allow in to any port 22 proto tcp''" "''web''"
      "''hi''" "[]" appending_host "[]" a1 a2 "(''[ 2]'', ''allow in to any port 22 proto tcp'')"]
    form run fetch one io ss sn
  obtain a3 where a3: "add_or_edit_rule appending_host False ?K A = Returns a3"
    and sv: "services a3 = setitem (services A)
        (strip_brackets (fst (''[ 2]'', ''allow in to any port 22 proto tcp''))) ''web''"
    and nt: "notes a3 = setitem (notes A)
        (strip_brackets (fst (''[ 2]'', ''allow in to any port 22 proto tcp''))) ''hi''"
    and fs: "files a3 (services_file A) = store_text (int_max_str_digits appending_host) (services a3)"
    and fn: "files a3 (notes_file A) = store_text (int_max_str_digits appending_host) (notes a3)"
    and st: "rules a3 \<noteq> [] \<longrightarrow> status_message a3 = ''Rule applied successfully.''"
    by auto
  have sv': "services a3 = setitem [] ''2'' ''web''" using sv by (simp add: fields strip_brackets_2)
  have nt': "notes a3 = setitem [] ''2'' ''hi''" using nt by (simp add: fields strip_brackets_2)
  have r3: "rules a3 = [(''[ 1]'', ''22/tcp ALLOW IN Anywhere''),
      (''[ 2]'', ''allow in to any port 22 proto tcp'')]"
    using appending_add a3 by (simp add: A_def)
  have c1: "services a3 = [(''2'', ''web'')]" "notes a3 = [(''2'', ''hi'')]"
    using sv' nt' by (simp_all add: setitem_def)
  have c2: "files a3 ''/h/services.txt'' = Some (''2:web'' @ [CHR 0x0A])"
    using fs unfolding sv' lim store_text_2 fields .
  have c3: "files a3 ''/h/notes.txt'' = Some (''2:hi'' @ [CHR 0x0A])"
    using fn unfolding nt' lim store_text_2 fields .
  have c4: "status_message a3 = ''Rule applied successfully.''" using st r3 by simp
  have c5: "sortable (int_max_str_digits appending_host) [(''2'', ''web'')]"
    "sortable (int_max_str_digits appending_host) [(''2'', ''hi'')]"
    using sortable_2 by (simp_all add: lim setitem_def)
  have c6: "added_rules [(''[ 1]'', ''22/tcp ALLOW IN Anywhere'')] (rules a2)
      = [(''[ 2]'', ''allow in to any port 22 proto tcp'')]"
    using one by (simp only: fields)
  show "\<exists>s1 s2 s3.
      get_rule_input_from_form None ?K
          ((fresh ''/h'' Map.empty [''22/tcp ALLOW IN Anywhere''])
             \<lparr>rules := [(''[ 1]'', ''22/tcp ALLOW IN Anywhere'')]\<rparr>)
        = Returns (Some (''allow in to any port 22 proto tcp'', ''web'', ''hi''), [],
            (fresh ''/h'' Map.empty [''22/tcp ALLOW IN Anywhere''])
              \<lparr>rules := [(''[ 1]'', ''22/tcp ALLOW IN Anywhere'')]\<rparr>)
      \<and> run_command appending_host (''sudo ufw '' @ ''allow in to any port 22 proto tcp'') None
          ((fresh ''/h'' Map.empty [''22/tcp ALLOW IN Anywhere''])
             \<lparr>rules := [(''[ 1]'', ''22/tcp ALLOW IN Anywhere'')]\<rparr>) = (Inr [], s1)
      \<and> get_firewall_rules appending_host s1 = Returns s2
      \<and> added_rules [(''[ 1]'', ''22/tcp ALLOW IN Anywhere'')] (rules s2)
          = [(''[ 2]'', ''allow in to any port 22 proto tcp'')]
      \<and> io_error appending_host (OpenWrite ''/h/services.txt'') = None
      \<and> io_error appending_host (OpenWrite ''/h/notes.txt'') = None
      \<and> sortable (int_max_str_digits appending_host) [(''2'', ''web'')]
      \<and> sortable (int_max_str_digits appending_host) [(''2'', ''hi'')]
      \<and> add_or_edit_rule appending_host False ?K
          ((fresh ''/h'' Map.empty [''22/tcp ALLOW IN Anywhere''])
             \<lparr>rules := [(''[ 1]'', ''22/tcp ALLOW IN Anywhere'')]\<rparr>) = Returns s3
      \<and> services s3 = [(''2'', ''web'')] \<and> notes s3 = [(''2'', ''hi'')]
      \<and> files s3 ''/h/services.txt'' = Some (''2:web'' @ [CHR 0x0A])
      \<and> files s3 ''/h/notes.txt'' = Some (''2:hi'' @ [CHR 0x0A])
      \<and> rules s3 = [(''[ 1]'', ''22/tcp ALLOW IN Anywhere''),
                    (''[ 2]'', ''allow in to any port 22 proto tcp'')]
      \<and> status_message s3 = ''Rule applied successfully.''"
    unfolding A_def[symmetric]
    by (intro exI[of _ a1] exI[of _ a2] exI[of _ a3] conjI)
      (rule form run fetch c6 io c5 a3 c1 c2 c3 r3 c4)+
next
  let ?K = "[9, 9, 9, 50, 50, 9, 9, 119, 101, 98, 9, 104, 105, 10] :: int list"
  define L where "L = (fresh ''/h'' Map.empty (''Status: active'' @ [CHR 0x0A] @ ''[ 1] 22/tcp ALLOW IN Anywhere''))
         \<lparr>rules := [(''[ 1]'', ''22/tcp ALLOW IN Anywhere'')]\<rparr>"
  define l1 where "l1 = snd (run_command listing_host ''sudo ufw allow in to any port 22 proto tcp'' None L)"
  have fields: "services L = []" "notes L = []" "rules L = [(''[ 1]'', ''22/tcp ALLOW IN Anywhere'')]"
    "files L = Map.empty"
    by (simp_all add: L_def fresh_def)
  have form: "get_rule_input_from_form None ?K L
     = Returns (Some (''allow in to any port 22 proto tcp'', ''web'', ''hi''), [], L)"
    by (rule form_web_22)
  have run: "run_command listing_host (''sudo ufw '' @ ''allow in to any port 22 proto tcp'') None L
      = (Inr [], l1)"
    by (simp add: l1_def run_command_def listing_host_def)
  obtain l2 where fetch: "get_firewall_rules listing_host l1 = Returns l2"
    using get_firewall_rules_returns by blast
  have r2: "rules l2 = [(''[ 1]'', ''22/tcp ALLOW IN Anywhere'')]"
    using listing_fetch_one_rule fetch by (simp add: l1_def L_def)
  have none: "added_rules (rules L) (rules l2) = []"
    by (simp add: r2 fields added_rules_def)
  from added_rule_from_difference[of "[]" "[]" ?K L "''allow in to any port 22 proto tcp''" "''web''"
      "''hi''" "[]" listing_host "[]" l1 l2 "([], [])"]
    form run fetch none
  obtain l3 where l3: "add_or_edit_rule listing_host False ?K L = Returns l3"
    and same: "notes l3 = notes L" "services l3 = services L" "files l3 = files L"
    and st: "rules l3 \<noteq> [] \<longrightarrow> status_message l3 = ''Rule applied successfully.''"
    by auto
  have r3: "rules l3 = [(''[ 1]'', ''22/tcp ALLOW IN Anywhere'')]"
    using listing_add_existing_rule l3 by (simp add: L_def)
  have c1: "notes l3 = []" "services l3 = []" "files l3 = Map.empty" using same fields by simp_all
  have c2: "rules l3 \<noteq> []" using r3 by simp
  have c3: "status_message l3 = ''Rule applied successfully.''" using st c2 by simp
  have c4: "added_rules [(''[ 1]'', ''22/tcp ALLOW IN Anywhere'')] (rules l2) = []"
    using none by (simp only: fields)
  show "\<exists>s1 s2 s3.
        get_rule_input_from_form None ?K
          ((fresh ''/h'' Map.empty (''Status: active'' @ [CHR 0x0A] @ ''[ 1] 22/tcp ALLOW IN Anywhere''))
             \<lparr>rules := [(''[ 1]'', ''22/tcp ALLOW IN Anywhere'')]\<rparr>)
        = Returns (Some (''allow in to any port 22 proto tcp'', ''web'', ''hi''), [],
            (fresh ''/h'' Map.empty (''Status: active'' @ [CHR 0x0A] @ ''[ 1] 22/tcp ALLOW IN Anywhere''))
              \<lparr>rules := [(''[ 1]'', ''22/tcp ALLOW IN Anywhere'')]\<rparr>)
        \<and> run_command listing_host (''sudo ufw '' @ ''allow in to any port 22 proto tcp'') None
          ((fresh ''/h'' Map.empty (''Status: active'' @ [CHR 0x0A] @ ''[ 1] 22/tcp ALLOW IN Anywhere''))
             \<lparr>rules := [(''[ 1]'', ''22/tcp ALLOW IN Anywhere'')]\<rparr>) = (Inr [], s1)
        \<and> get_firewall_rules listing_host s1 = Returns s2
        \<and> added_rules [(''[ 1]'', ''22/tcp ALLOW IN Anywhere'')] (rules s2) = []
        \<and> add_or_edit_rule listing_host False ?K
          ((fresh ''/h'' Map.empty (''Status: active'' @ [CHR 0x0A] @ ''[ 1] 22/tcp ALLOW IN Anywhere''))
             \<lparr>rules := [(''[ 1]'', ''22/tcp ALLOW IN Anywhere'')]\<rparr>) = Returns s3
        \<and> notes s3 = [] \<and> services s3 = [] \<and> files s3 = Map.empty \<and> rules s3 \<noteq> []
        \<and> status_message s3 = ''Rule applied successfully.''"
    unfolding L_def[symmetric]
    by (intro exI[of _ l1] exI[of _ l2] exI[of _ l3] conjI)
      (rule form run fetch c4 l3 c1 c2 c3)+
qed

text \<open>The claim as it is worded fails on an inactive firewall, whose listing holds no
  rule before and after the add: the message of the closing fetch replaces the report of
  success.\<close>

lemma inactive_add:
  "(case add_or_edit_rule listing_host False [9, 9, 9, 50, 50, 10]
      (fresh ''/h'' Map.empty ''Status: inactive'') of
      Returns x \<Rightarrow> Some (rules x, issued x, status_message x)
    | Raises e w \<Rightarrow> None
    | Blocks \<Rightarrow> None)
   = Some ([], [''sudo ufw allow in to any port 22 proto tcp'', ''sudo ufw status numbered'',
        ''sudo ufw status numbered''], ''UFW is active, but no rules are configured.'')"
  by code_simp

theorem add_on_inactive_firewall:
  "\<exists>s'. add_or_edit_rule listing_host False [9, 9, 9, 50, 50, 10]
          (fresh ''/h'' Map.empty ''Status: inactive'') = Returns s'
     \<and> rules s' = rules (fresh ''/h'' Map.empty ''Status: inactive'' :: string manager)
     \<and> added_rules (rules (fresh ''/h'' Map.empty ''Status: inactive'' :: string manager)) (rules s') = []
     \<and> issued s' = [''sudo ufw allow in to any port 22 proto tcp'', ''sudo ufw status numbered'',
          ''sudo ufw status numbered'']
     \<and> status_message s' = ''UFW is active, but no rules are configured.''
     \<and> status_message s' \<noteq> ''Rule applied successfully.''"
  using inactive_add
  by (cases "add_or_edit_rule listing_host False [9, 9, 9, 50, 50, 10]
          (fresh ''/h'' Map.empty ''Status: inactive'')")
    (simp_all add: fresh_def added_rules_def)

end
